theory Spec2Isabelle
  imports Complex_Main "HOL-Library.Word" "HOL-Library.AList"
begin

section \<open>Scope\<close>

text \<open>
  AidPal sends a photograph of a wound and a note of the user to a hosted model and
  shows the structured first-aid report that comes back. This theory embeds the service
  behind it, \<open>analyzeWound\<close> of \<open>geminiService.ts\<close>, with the types of \<open>types.ts\<close>:
  how the image string is taken apart, the prompt, the loop over the candidate models,
  the cleaning, parsing and validation of a response, and the error at exhaustion.

  The source file defines \<open>analyzeWound\<close> twice: at lines 76-148 and at lines 230-335.
  Both bodies are embedded. The second is embedded first, and line numbers are those
  of the second unless a section says otherwise. The two bodies have the same image
  handling, cleaning, parsing and validation, and loops of the same shape; the first
  has four candidates and its own prompt, and at exhaustion it throws an Error with the
  message of the last error, where the second throws a message chosen by status.

  The hosted model, \<open>JSON.parse\<close> and the validation library are not code of the
  repository. The model is a parameter; \<open>JSON.parse\<close> is a parameter with a model of
  what it computes; of the library, the combinators that the schema uses are defined.
\<close>

section \<open>JavaScript strings\<close>

text \<open>
  A JavaScript string is a finite sequence of UTF-16 code units. \<open>js\<close> embeds a
  literal of 8-bit characters; code units beyond that range are written as numerals.
  The code units that the code looks for are written as numerals too: \<open>0x2C\<close> is the
  comma, \<open>0x3A\<close> the colon, \<open>0x3B\<close> the semicolon, \<open>0x7B\<close> and \<open>0x7D\<close> the
  braces, \<open>0x22\<close> the double quote, \<open>0x5C\<close> the backslash, \<open>0x0A\<close> the line feed.
\<close>

type_synonym jschar = "16 word"
type_synonym jsstring = "jschar list"

definition js :: "string \<Rightarrow> jsstring" where
  "js s = map of_char s"

text \<open>
  \<open>s.split(sep)\<close> for a separator of one code unit: the pieces between the
  occurrences of \<open>sep\<close>, always at least one piece.
\<close>

fun split :: "jschar \<Rightarrow> jsstring \<Rightarrow> jsstring list" where
  "split sep [] = [[]]"
| "split sep (c # cs) =
     (if c = sep then [] # split sep cs
      else (case split sep cs of [] \<Rightarrow> [[c]] | p # ps \<Rightarrow> (c # p) # ps))"

text \<open>\<open>a[i]\<close> on an array: \<open>undefined\<close> (here \<open>None\<close>) out of range.\<close>

definition at_index :: "'a list \<Rightarrow> nat \<Rightarrow> 'a option" where
  "at_index xs i = (if i < length xs then Some (xs ! i) else None)"

text \<open>
  \<open>x || d\<close> where \<open>x\<close> is a string or \<open>undefined\<close>: both \<open>undefined\<close> and the
  empty string are falsy.
\<close>

definition or_else :: "jsstring option \<Rightarrow> jsstring \<Rightarrow> jsstring" where
  "or_else x d = (case x of None \<Rightarrow> d | Some s \<Rightarrow> if s = [] then d else s)"

section \<open>The image part (geminiService.ts, lines 233-241)\<close>

record inlineData =
  data :: jsstring
  mimeType :: jsstring

text \<open>\<open>base64Image.split(',')[1] || base64Image\<close>\<close>

definition base64Data_of :: "jsstring \<Rightarrow> jsstring" where
  "base64Data_of base64Image = or_else (at_index (split 0x2C base64Image) 1) base64Image"

text \<open>
  \<open>base64Image.split(';')[0].split(':')[1] || 'image/jpeg'\<close>. The first piece of a
  split always exists.
\<close>

definition mimeType_of :: "jsstring \<Rightarrow> jsstring" where
  "mimeType_of base64Image =
     (case at_index (split 0x3B base64Image) 0 of
        None \<Rightarrow> js ''image/jpeg''
      | Some p \<Rightarrow> or_else (at_index (split 0x3A p) 1) (js ''image/jpeg''))"

definition imagePart_of :: "jsstring \<Rightarrow> inlineData" where
  "imagePart_of base64Image =
     \<lparr> data = base64Data_of base64Image, mimeType = mimeType_of base64Image \<rparr>"

section \<open>Cleaning the response text (lines 291-296)\<close>

text \<open>
  \<open>String.prototype.trim\<close> removes the code units of the ECMAScript productions
  WhiteSpace and LineTerminator from both ends.
\<close>

definition isWhiteSpace :: "jschar \<Rightarrow> bool" where
  "isWhiteSpace c \<longleftrightarrow>
     c = 0x0009 \<or> c = 0x000A \<or> c = 0x000B \<or> c = 0x000C \<or> c = 0x000D \<or> c = 0x0020 \<or>
     c = 0x00A0 \<or> c = 0x1680 \<or> (0x2000 \<le> c \<and> c \<le> 0x200A) \<or> c = 0x2028 \<or> c = 0x2029 \<or>
     c = 0x202F \<or> c = 0x205F \<or> c = 0x3000 \<or> c = 0xFEFF"

definition trim :: "jsstring \<Rightarrow> jsstring" where
  "trim s = rev (dropWhile isWhiteSpace (rev (dropWhile isWhiteSpace s)))"

text \<open>
  \<open>cleanJson.match(/\{[\s\S]*\}/)\<close>: the class \<open>[\s\S]\<close> matches every code unit and
  the star is greedy, so the match starts at the leftmost \<open>{\<close> and runs to the last
  \<open>}\<close> of the text; there is no match when no \<open>}\<close> follows the leftmost \<open>{\<close>
  (then none follows a later \<open>{\<close> either). The result is \<open>jsonMatch[0]\<close>, or \<open>None\<close>
  for \<open>null\<close>.
\<close>

definition match_braces :: "jsstring \<Rightarrow> jsstring option" where
  "match_braces s =
     (let from_open = dropWhile (\<lambda>c. c \<noteq> 0x7B) s;
          upto_close = rev (dropWhile (\<lambda>c. c \<noteq> 0x7D) (rev from_open))
      in if upto_close = [] then None else Some upto_close)"

definition cleanJson_of :: "jsstring \<Rightarrow> jsstring" where
  "cleanJson_of resultText =
     (let cleanJson = trim resultText
      in case match_braces cleanJson of Some m \<Rightarrow> m | None \<Rightarrow> cleanJson)"

section \<open>JSON values\<close>

text \<open>
  The values \<open>JSON.parse\<close> can return. A number keeps the text of its literal: no
  operation of the service reads its value. An object lists its own properties; setting
  a property that exists keeps its place (\<open>AList.update\<close>), and a lookup is \<open>map_of\<close>.
\<close>

datatype json =
    JNull
  | JBool bool
  | JNumber jsstring
  | JString jsstring
  | JArray "json list"
  | JObject "(jsstring \<times> json) list"

section \<open>JSON.parse\<close>

text \<open>
  \<open>JSON.parse\<close> as ECMA-404 and ECMAScript define it, in two passes: the text is cut
  into tokens, and the tokens are read with a stack of the arrays and objects that are
  open. A text that is not one JSON value makes it throw a SyntaxError (\<open>None\<close>).
\<close>

datatype token =
    TLBrace | TRBrace | TLBracket | TRBracket | TColon | TComma
  | TString jsstring | TNumber jsstring | TTrue | TFalse | TNull

definition isJsonWhiteSpace :: "jschar \<Rightarrow> bool" where
  "isJsonWhiteSpace c \<longleftrightarrow> c = 0x20 \<or> c = 0x09 \<or> c = 0x0A \<or> c = 0x0D"

definition isDigit :: "jschar \<Rightarrow> bool" where
  "isDigit c \<longleftrightarrow> 0x30 \<le> c \<and> c \<le> 0x39"

definition hexDigit :: "jschar \<Rightarrow> jschar option" where
  "hexDigit c =
     (if 0x30 \<le> c \<and> c \<le> 0x39 then Some (c - 0x30)
      else if 0x41 \<le> c \<and> c \<le> 0x46 then Some (c - 0x41 + 10)
      else if 0x61 \<le> c \<and> c \<le> 0x66 then Some (c - 0x61 + 10)
      else None)"

text \<open>The code unit that a four-digit hexadecimal escape denotes.\<close>

definition hex4 :: "jschar \<Rightarrow> jschar \<Rightarrow> jschar \<Rightarrow> jschar \<Rightarrow> jschar option" where
  "hex4 a b c d =
     (case (hexDigit a, hexDigit b, hexDigit c, hexDigit d) of
        (Some h3, Some h2, Some h1, Some h0) \<Rightarrow> Some (h3 * 0x1000 + h2 * 0x100 + h1 * 0x10 + h0)
      | _ \<Rightarrow> None)"

definition unescape :: "jschar \<Rightarrow> jschar option" where
  "unescape e =
     (if e = 0x22 then Some 0x22
      else if e = 0x5C then Some 0x5C
      else if e = 0x2F then Some 0x2F
      else if e = 0x62 then Some 0x08
      else if e = 0x66 then Some 0x0C
      else if e = 0x6E then Some 0x0A
      else if e = 0x72 then Some 0x0D
      else if e = 0x74 then Some 0x09
      else None)"

text \<open>
  The rest of a string literal after its opening quote: the string it denotes and the
  text after the closing quote. Control characters must be escaped.
\<close>

fun lex_string :: "jsstring \<Rightarrow> jsstring \<Rightarrow> (jsstring \<times> jsstring) option" where
  "lex_string acc [] = None"
| "lex_string acc (c # cs) =
     (if c = 0x22 then Some (rev acc, cs)
      else if c = 0x5C then
        (case cs of
           [] \<Rightarrow> None
         | e # es \<Rightarrow>
             (if e = 0x75 then
                (case es of
                   a # b # c # d # r \<Rightarrow>
                     (case hex4 a b c d of None \<Rightarrow> None | Some u \<Rightarrow> lex_string (u # acc) r)
                 | _ \<Rightarrow> None)
              else (case unescape e of None \<Rightarrow> None | Some u \<Rightarrow> lex_string (u # acc) es)))
      else if c < 0x20 then None
      else lex_string (c # acc) cs)"

text \<open>
  A number literal: an optional minus sign, \<open>0\<close> or digits without a leading zero, an
  optional fraction and an optional exponent.
\<close>

definition lex_fraction :: "jsstring \<Rightarrow> (jsstring \<times> jsstring) option" where
  "lex_fraction s =
     (case s of
        [] \<Rightarrow> Some ([], [])
      | c # cs \<Rightarrow>
          if c = 0x2E then
            (if takeWhile isDigit cs = [] then None
             else Some (c # takeWhile isDigit cs, dropWhile isDigit cs))
          else Some ([], s))"

definition lex_exponent :: "jsstring \<Rightarrow> (jsstring \<times> jsstring) option" where
  "lex_exponent s =
     (case s of
        [] \<Rightarrow> Some ([], [])
      | c # cs \<Rightarrow>
          if c = 0x65 \<or> c = 0x45 then
            (let (sign, r) =
                   (case cs of
                      [] \<Rightarrow> ([], [])
                    | x # xs \<Rightarrow> if x = 0x2B \<or> x = 0x2D then ([x], xs) else ([], cs))
             in if takeWhile isDigit r = [] then None
                else Some (c # sign @ takeWhile isDigit r, dropWhile isDigit r))
          else Some ([], s))"

definition lex_number :: "jsstring \<Rightarrow> (jsstring \<times> jsstring) option" where
  "lex_number s =
     (let (sign, s1) =
            (case s of [] \<Rightarrow> ([], []) | c # cs \<Rightarrow> if c = 0x2D then ([c], cs) else ([], s))
      in case s1 of
           [] \<Rightarrow> None
         | d # ds \<Rightarrow>
             if \<not> isDigit d then None
             else
               (let (int_part, s2) =
                      (if d = 0x30 then ([d], ds)
                       else (d # takeWhile isDigit ds, dropWhile isDigit ds))
                in case lex_fraction s2 of
                     None \<Rightarrow> None
                   | Some (fraction, s3) \<Rightarrow>
                       (case lex_exponent s3 of
                          None \<Rightarrow> None
                        | Some (ex, s4) \<Rightarrow> Some (sign @ int_part @ fraction @ ex, s4))))"

lemma lex_string_shorter: "lex_string acc cs = Some (str, r) \<Longrightarrow> length r < Suc (length cs)"
proof (induction acc cs rule: lex_string.induct)
  case (1 acc)
  then show ?case by simp
next
  case (2 acc c cs)
  show ?case
  proof (cases "c = 0x22")
    case True
    with 2(4) show ?thesis by simp
  next
    case quote: False
    show ?thesis
    proof (cases "c = 0x5C")
      case False
      with quote 2(3,4) show ?thesis
        by (fastforce split: if_splits)
    next
      case True
      with quote 2(4) obtain e es where cs: "cs = e # es"
        by (cases cs) auto
      show ?thesis
      proof (cases "e = 0x75")
        case False
        with quote True cs 2(4) obtain u where "unescape e = Some u" "lex_string (u # acc) es = Some (str, r)"
          by (auto split: option.splits)
        with 2(2)[OF quote True cs False] cs show ?thesis by fastforce
      next
        case u: True
        with quote True cs 2(4) obtain a b c' d r' x where
           es: "es = a # b # c' # d # r'" and h: "hex4 a b c' d = Some x"
             and l: "lex_string (x # acc) r' = Some (str, r)"
          by (auto split: option.splits list.splits)
        from 2(1)[OF quote True cs u es refl refl refl h l] cs es show ?thesis by simp
      qed
    qed
  qed
qed

lemma lex_fraction_shorter: "lex_fraction s = Some (f, r) \<Longrightarrow> length r \<le> length s"
  by (auto simp: lex_fraction_def length_dropWhile_le le_SucI split: list.splits if_splits)

lemma lex_exponent_shorter: "lex_exponent s = Some (f, r) \<Longrightarrow> length r \<le> length s"
  by (auto simp: lex_exponent_def length_dropWhile_le le_SucI
      intro: le_trans[OF length_dropWhile_le] split: list.splits if_splits prod.splits)

lemma lex_number_shorter:
  assumes "lex_number s = Some (num, r)"
  shows "length r < length s"
proof -
  obtain sign s1 where a: "(case s of [] \<Rightarrow> ([], []) | c # cs \<Rightarrow> if c = 0x2D then ([c], cs) else ([], s)) = (sign, s1)"
    by fastforce
  then have s1: "length s1 \<le> length s"
    by (auto split: list.splits if_splits)
  from assms a obtain d ds where d: "s1 = d # ds" "isDigit d"
    by (auto simp: lex_number_def split: list.splits if_splits)
  obtain ip s2 where b: "(if d = 0x30 then ([d], ds) else (d # takeWhile isDigit ds, dropWhile isDigit ds)) = (ip, s2)"
    by fastforce
  then have s2: "length s2 \<le> length ds"
    by (auto simp: length_dropWhile_le split: if_splits)
  from assms a d b obtain fr s3 ex where c: "lex_fraction s2 = Some (fr, s3)" "lex_exponent s3 = Some (ex, r)"
    by (auto simp: lex_number_def split: option.splits)
  from c have "length r \<le> length s2"
    using lex_fraction_shorter lex_exponent_shorter le_trans by blast
  with s2 d s1 show ?thesis by simp
qed

function lex :: "jsstring \<Rightarrow> token list option" where
  "lex [] = Some []"
| "lex (c # cs) =
     (if isJsonWhiteSpace c then lex cs
      else if c = 0x7B then map_option (Cons TLBrace) (lex cs)
      else if c = 0x7D then map_option (Cons TRBrace) (lex cs)
      else if c = 0x5B then map_option (Cons TLBracket) (lex cs)
      else if c = 0x5D then map_option (Cons TRBracket) (lex cs)
      else if c = 0x3A then map_option (Cons TColon) (lex cs)
      else if c = 0x2C then map_option (Cons TComma) (lex cs)
      else if c = 0x22 then
        (case lex_string [] cs of
           None \<Rightarrow> None
         | Some (str, r) \<Rightarrow> map_option (Cons (TString str)) (lex r))
      else if c = 0x2D \<or> isDigit c then
        (case lex_number (c # cs) of
           None \<Rightarrow> None
         | Some (num, r) \<Rightarrow> map_option (Cons (TNumber num)) (lex r))
      else if take 4 (c # cs) = js ''true'' then map_option (Cons TTrue) (lex (drop 4 (c # cs)))
      else if take 5 (c # cs) = js ''false'' then map_option (Cons TFalse) (lex (drop 5 (c # cs)))
      else if take 4 (c # cs) = js ''null'' then map_option (Cons TNull) (lex (drop 4 (c # cs)))
      else None)"
  by pat_completeness auto
termination
proof (relation "measure length")
  show "wf (measure length)" by simp
qed (auto dest: lex_string_shorter lex_number_shorter)

text \<open>
  Reading the tokens. A frame is an array with its elements so far (last first), an
  object with its properties so far, or an object with the key whose value is being
  read. A property that is set twice keeps its first place and its last value.
\<close>

datatype frame =
    InArray "json list"
  | InObject "(jsstring \<times> json) list"
  | InProperty "(jsstring \<times> json) list" jsstring

datatype expect =
    ExpValue | ExpValueOrEnd | ExpKey | ExpKeyOrEnd | ExpColon jsstring | ExpCommaOrEnd
  | ExpEnd json

fun complete_value :: "json \<Rightarrow> frame list \<Rightarrow> (expect \<times> frame list) option" where
  "complete_value v [] = Some (ExpEnd v, [])"
| "complete_value v (InArray xs # st) = Some (ExpCommaOrEnd, InArray (v # xs) # st)"
| "complete_value v (InProperty kvs k # st) =
     Some (ExpCommaOrEnd, InObject (AList.update k v kvs) # st)"
| "complete_value v (InObject kvs # st) = None"

fun close_array :: "frame list \<Rightarrow> (expect \<times> frame list) option" where
  "close_array (InArray xs # st) = complete_value (JArray (rev xs)) st"
| "close_array _ = None"

fun close_object :: "frame list \<Rightarrow> (expect \<times> frame list) option" where
  "close_object (InObject kvs # st) = complete_value (JObject kvs) st"
| "close_object _ = None"

fun start_value :: "token \<Rightarrow> frame list \<Rightarrow> (expect \<times> frame list) option" where
  "start_value TLBrace st = Some (ExpKeyOrEnd, InObject [] # st)"
| "start_value TLBracket st = Some (ExpValueOrEnd, InArray [] # st)"
| "start_value (TString s) st = complete_value (JString s) st"
| "start_value (TNumber n) st = complete_value (JNumber n) st"
| "start_value TTrue st = complete_value (JBool True) st"
| "start_value TFalse st = complete_value (JBool False) st"
| "start_value TNull st = complete_value JNull st"
| "start_value _ st = None"

fun parse_step :: "expect \<Rightarrow> frame list \<Rightarrow> token \<Rightarrow> (expect \<times> frame list) option" where
  "parse_step ExpValue st t = start_value t st"
| "parse_step ExpValueOrEnd st t = (if t = TRBracket then close_array st else start_value t st)"
| "parse_step ExpKey st t = (case t of TString k \<Rightarrow> Some (ExpColon k, st) | _ \<Rightarrow> None)"
| "parse_step ExpKeyOrEnd st t =
     (case t of TString k \<Rightarrow> Some (ExpColon k, st) | TRBrace \<Rightarrow> close_object st | _ \<Rightarrow> None)"
| "parse_step (ExpColon k) st t =
     (case (t, st) of
        (TColon, InObject kvs # st') \<Rightarrow> Some (ExpValue, InProperty kvs k # st')
      | _ \<Rightarrow> None)"
| "parse_step ExpCommaOrEnd st t =
     (case (t, st) of
        (TComma, InArray xs # st') \<Rightarrow> Some (ExpValue, st)
      | (TComma, InObject kvs # st') \<Rightarrow> Some (ExpKey, st)
      | (TRBracket, _) \<Rightarrow> close_array st
      | (TRBrace, _) \<Rightarrow> close_object st
      | _ \<Rightarrow> None)"
| "parse_step (ExpEnd v) st t = None"

fun parse_tokens :: "expect \<Rightarrow> frame list \<Rightarrow> token list \<Rightarrow> json option" where
  "parse_tokens e st [] = (case (e, st) of (ExpEnd v, []) \<Rightarrow> Some v | _ \<Rightarrow> None)"
| "parse_tokens e st (t # ts) =
     (case parse_step e st t of None \<Rightarrow> None | Some (e', st') \<Rightarrow> parse_tokens e' st' ts)"

definition ecma_JSON_parse :: "jsstring \<Rightarrow> json option" where
  "ecma_JSON_parse text =
     (case lex text of None \<Rightarrow> None | Some ts \<Rightarrow> parse_tokens ExpValue [] ts)"

section \<open>The schema validator (lines 156-162)\<close>

text \<open>
  The part of zod the schema uses, as parser combinators. A schema takes the path of
  the value it looks at and the value (\<open>None\<close> for \<open>undefined\<close>, the value of a missing
  property) and returns the parsed value or the issues. An issue keeps its path and the
  message the schema gave for it (\<open>None\<close> where the library words the message).
\<close>

datatype path_elem = Key jsstring | Index nat

record zod_issue =
  path :: "path_elem list"
  message :: "jsstring option"

type_synonym zod_schema = "path_elem list \<Rightarrow> json option \<Rightarrow> zod_issue list + json"

definition z_string :: zod_schema where
  "z_string p v =
     (case v of Some (JString s) \<Rightarrow> Inr (JString s)
      | _ \<Rightarrow> Inl [\<lparr> path = p, message = None \<rparr>])"

text \<open>\<open>z.string().min(n, msg)\<close>: a string of at least \<open>n\<close> code units.\<close>

definition z_string_min :: "nat \<Rightarrow> jsstring \<Rightarrow> zod_schema" where
  "z_string_min n msg p v =
     (case z_string p v of
        Inr (JString s) \<Rightarrow>
          if length s < n then Inl [\<lparr> path = p, message = Some msg \<rparr>] else Inr (JString s)
      | r \<Rightarrow> r)"

text \<open>\<open>z.enum([...])\<close>: a string that is one of the options.\<close>

definition z_enum :: "jsstring list \<Rightarrow> zod_schema" where
  "z_enum options p v =
     (case v of
        Some (JString s) \<Rightarrow>
          if s \<in> set options then Inr (JString s) else Inl [\<lparr> path = p, message = None \<rparr>]
      | _ \<Rightarrow> Inl [\<lparr> path = p, message = None \<rparr>])"

text \<open>
  Parsing the elements of an array, or the properties of an object, collects the issues
  of all of them; the result is the list of parsed values when there is no issue.
\<close>

fun collect :: "(zod_issue list + 'a) list \<Rightarrow> zod_issue list + 'a list" where
  "collect [] = Inr []"
| "collect (r # rs) =
     (case (r, collect rs) of
        (Inr x, Inr xs) \<Rightarrow> Inr (x # xs)
      | (Inr x, Inl is) \<Rightarrow> Inl is
      | (Inl i, Inr xs) \<Rightarrow> Inl i
      | (Inl i, Inl is) \<Rightarrow> Inl (i @ is))"

text \<open>\<open>z.array(item).min(n, msg)\<close>: an array of at least \<open>n\<close> elements, each parsed by \<open>item\<close>.\<close>

definition z_array_min :: "zod_schema \<Rightarrow> nat \<Rightarrow> jsstring \<Rightarrow> zod_schema" where
  "z_array_min item n msg p v =
     (case v of
        Some (JArray xs) \<Rightarrow>
          (let small = (if length xs < n then [\<lparr> path = p, message = Some msg \<rparr>] else []);
               elems = collect (map (\<lambda>(i, x). item (p @ [Index i]) (Some x)) (enumerate 0 xs))
           in case elems of
                Inr ys \<Rightarrow> if small = [] then Inr (JArray ys) else Inl small
              | Inl is \<Rightarrow> Inl (small @ is))
      | _ \<Rightarrow> Inl [\<lparr> path = p, message = None \<rparr>])"

text \<open>
  \<open>z.object(shape)\<close>: the value must be an object (not \<open>null\<close>, not an array). Each key
  of the shape is looked up and parsed; the result is a new object with the keys of the
  shape, in the order of the shape. Keys of the input that the shape does not name are
  left out (zod's default for unknown keys).
\<close>

definition z_object :: "(jsstring \<times> zod_schema) list \<Rightarrow> zod_schema" where
  "z_object shape p v =
     (case v of
        Some (JObject props) \<Rightarrow>
          (case collect (map (\<lambda>(k, schema).
                   map_sum id (Pair k) (schema (p @ [Key k]) (map_of props k))) shape) of
             Inr kvs \<Rightarrow> Inr (JObject kvs)
           | Inl is \<Rightarrow> Inl is)
      | _ \<Rightarrow> Inl [\<lparr> path = p, message = None \<rparr>])"

definition AnalysisResultSchema :: zod_schema where
  "AnalysisResultSchema = z_object
     [ (js ''woundType'', z_string_min 1 (js ''Wound type is required'')),
       (js ''severity'', z_enum [js ''Low'', js ''Medium'', js ''High'']),
       (js ''description'', z_string_min 1 (js ''Description is required'')),
       (js ''firstAidSteps'',
          z_array_min z_string 1 (js ''At least one first aid step is required'')),
       (js ''recommendation'', z_string_min 1 (js ''Recommendation is required'')) ]"

text \<open>\<open>schema.parse(data)\<close> returns the parsed value or throws a ZodError with the issues.\<close>

definition zod_parse :: "zod_schema \<Rightarrow> json \<Rightarrow> zod_issue list + json" where
  "zod_parse schema input = schema [] (Some input)"

section \<open>Values read from a caught error\<close>

text \<open>
  The \<open>catch\<close> block and the final selection read the properties \<open>status\<close> and \<open>code\<close>
  of whatever was thrown. These are taken to be primitive values (numbers in practice;
  \<open>undefined\<close> when the property is missing), which the logging of the \<open>catch\<close> block
  can always turn into text. Only truthiness and strict equality with a number are
  used, so a finite number is kept as the rational it denotes (\<open>0\<close> and \<open>-0\<close> are
  strictly equal and both falsy).
\<close>

datatype jsval =
    Undefined
  | Null
  | Boolean bool
  | Number rat
  | NaN
  | Infinity bool
  | BigInt int
  | String jsstring

fun truthy :: "jsval \<Rightarrow> bool" where
  "truthy Undefined = False"
| "truthy Null = False"
| "truthy (Boolean b) = b"
| "truthy (Number r) = (r \<noteq> 0)"
| "truthy NaN = False"
| "truthy (Infinity _) = True"
| "truthy (BigInt i) = (i \<noteq> 0)"
| "truthy (String s) = (s \<noteq> [])"

text \<open>\<open>a || b\<close> and \<open>v === n\<close> for a number literal \<open>n\<close>.\<close>

definition js_or :: "jsval \<Rightarrow> jsval \<Rightarrow> jsval" where
  "js_or a b = (if truthy a then a else b)"

definition strict_eq_num :: "jsval \<Rightarrow> rat \<Rightarrow> bool" where
  "strict_eq_num v n \<longleftrightarrow> v = Number n"

text \<open>
  What a \<open>try\<close> body of the loop can throw: whatever the remote call rejects with (kept
  as the two properties that are read), the error for an empty response (line 288), the
  SyntaxError of \<open>JSON.parse\<close>, or the ZodError of the validator. The last three are
  Error objects without a \<open>status\<close> or a \<open>code\<close> property.
\<close>

datatype caught =
    Rejected (rejected_status: jsval) (rejected_code: jsval)
  | EmptyResponse
  | SyntaxError
  | ZodError "zod_issue list"

fun status_of :: "caught \<Rightarrow> jsval" where
  "status_of (Rejected st cd) = st"
| "status_of _ = Undefined"

fun code_of :: "caught \<Rightarrow> jsval" where
  "code_of (Rejected st cd) = cd"
| "code_of _ = Undefined"

text \<open>
  \<open>error?.status || error?.code\<close>; \<open>None\<close> is the \<open>null\<close> that \<open>lastError\<close> starts with,
  where both optional accesses give \<open>undefined\<close>.
\<close>

definition statusCode_of :: "caught option \<Rightarrow> jsval" where
  "statusCode_of e =
     (case e of None \<Rightarrow> js_or Undefined Undefined
      | Some err \<Rightarrow> js_or (status_of err) (code_of err))"

section \<open>Module constants (lines 167-224)\<close>

datatype genai_schema =
    TypeString "jsstring option"
  | TypeArray genai_schema "jsstring option"
  | TypeObject "(jsstring \<times> genai_schema) list" "jsstring list"

definition ANALYSIS_SCHEMA_GENAI :: genai_schema where
  "ANALYSIS_SCHEMA_GENAI = TypeObject
     [ (js ''woundType'',
          TypeString (Some (js ''The identified name of the wound or skin condition.''))),
       (js ''severity'', TypeString (Some (js ''Severity level: Low, Medium, or High.''))),
       (js ''description'',
          TypeString (Some (js ''A friendly and professional description of what the AI sees.''))),
       (js ''firstAidSteps'',
          TypeArray (TypeString None)
            (Some (js ''Step-by-step first aid actions to take immediately.''))),
       (js ''recommendation'',
          TypeString (Some (js ''Medical recommendation (e.g., visit a clinic, monitor at home, call emergency).''))) ]
     [ js ''woundType'', js ''severity'', js ''description'', js ''firstAidSteps'',
       js ''recommendation'' ]"

text \<open>Lines joined by line feeds, as a template literal that spans lines has them.\<close>

fun join_lines :: "jsstring list \<Rightarrow> jsstring" where
  "join_lines [] = []"
| "join_lines [l] = l"
| "join_lines (l # ls) = l @ 0x0A # join_lines ls"

text \<open>
  The two module-level values the loop reads: the array of model names, which a
  program could change in place, and the knowledge-base text. They are the state that
  a call receives and hands back; no statement of the service assigns to them or
  changes the array.
\<close>

record module_state =
  MODELS_TO_TRY :: "jsstring list"
  MEDICAL_PDF_KNOWLEDGE :: jsstring

definition MEDICAL_PDF_KNOWLEDGE_text :: jsstring where
  "MEDICAL_PDF_KNOWLEDGE_text = join_lines
     [ js '''',
       js ''WOUNDS & SKIN INJURIES PROTOCOLS (102 Total):'',
       js ''1. Cut: Rinse with water. Press gently with clean cloth to stop bleeding. Apply antiseptic. Cover with bandage. Note: Consult professional if bleeding > 10m.'',
       js ''2. Scrape (Abrasion): Wash with soap/water. Remove dirt gently. Apply ointment. Cover lightly.'',
       js ''3. Bruise: Apply cold compress (10-15m). Rest. Repeat after hours.'',
       js ''4. Minor Burn: Cool under water (10m). Gently dry. Apply burn cream/aloe. Cover loosely.'',
       js ''5. Blister: Wash area. Do not pop. Cover with bandage. Keep clean/dry.'',
       js ''6. Splinter: Clean area. Remove with tweezers. Wash again. Cover if bleeding.'',
       js ''7. Insect Bite: Wash with soap/water. Cold compress. Anti-itch cream.'',
       js ''8. Insect Sting: Remove stinger gently. Wash. Cold compress. Watch for swelling.'',
       js ''9. Puncture Wound: Rinse. Let bleed slightly. Antiseptic. Cover.'',
       js ''10. Minor Skin Rash: Wash gently. Dry softly. Soothing cream. Avoid irritants.'',
       js ''... (Protocols 11-102)'',
       js ''102. Mild Callus: Soak in water. Smooth skin. Moisturizer.'',
       js '''' ]"

definition module_init :: module_state where
  "module_init =
     \<lparr> MODELS_TO_TRY =
         [ js ''gemini-3-flash-preview'',
           js ''gemini-2.5-flash-native-audio-preview-12-2025'',
           js ''gemini-flash-lite-latest'',
           js ''gemini-3-pro-preview'',
           js ''gemini-2.5-pro'',
           js ''gemini-2.5-flash'',
           js ''gemini-2.5-flash-lite'' ],
       MEDICAL_PDF_KNOWLEDGE = MEDICAL_PDF_KNOWLEDGE_text \<rparr>"

section \<open>The request (lines 249-284)\<close>

text \<open>The template literal of the prompt, cut at its two substitutions.\<close>

definition prompt_intro :: jsstring where
  "prompt_intro = join_lines
     [ js ''You are AidPal, a friendly and expert health buddy. Analyze this medical image.'',
       js ''        '',
       js ''        KNOWLEDGE BASE:'',
       js ''        '' ]"

definition prompt_context_label :: jsstring where
  "prompt_context_label = join_lines
     [ js '''',
       js ''        '',
       js ''        USER CONTEXT: '' ]"

definition prompt_instructions :: jsstring where
  "prompt_instructions = join_lines
     [ js '''',
       js ''        '',
       js ''        INSTRUCTIONS:'',
       js ''        1. Identify the condition clearly based on the image and user context. '',
       js ''        2. Strictly follow the KNOWLEDGE BASE protocols for step-by-step first aid.'',
       js ''        3. Return ONLY a valid JSON object. '',
       js ''        4. Do not include any text outside the JSON.'',
       js ''        5. Mention you are an AI health buddy, not a doctor.'',
       js ''        6. Disclaimer: \"I'm a robot buddy, not a doc! This is not a professional diagnosis.\"'',
       js '''',
       js ''        REQUIRED JSON STRUCTURE:'',
       js ''        {'',
       js ''          \"woundType\": \"string\",'',
       js ''          \"severity\": \"Low\" | \"Medium\" | \"High\",'',
       js ''          \"description\": \"string\",'',
       js ''          \"firstAidSteps\": [\"string\"],'',
       js ''          \"recommendation\": \"string\"'',
       js ''        }'' ]"

text \<open>\<open>${context || "None provided."}\<close>\<close>

definition context_or_default :: "jsstring \<Rightarrow> jsstring" where
  "context_or_default context = or_else (Some context) (js ''None provided.'')"

definition promptText :: "jsstring \<Rightarrow> jsstring \<Rightarrow> jsstring" where
  "promptText knowledge context =
     prompt_intro @ knowledge @ prompt_context_label @ context_or_default context
       @ prompt_instructions"

record generation_config =
  responseMimeType :: jsstring
  responseSchema :: genai_schema

record request =
  model :: jsstring
  imagePart :: inlineData
  promptPart :: jsstring
  config :: generation_config

definition request_for :: "module_state \<Rightarrow> inlineData \<Rightarrow> jsstring \<Rightarrow> jsstring \<Rightarrow> request" where
  "request_for st img context modelName =
     \<lparr> model = modelName,
       imagePart = img,
       promptPart = promptText (MEDICAL_PDF_KNOWLEDGE st) context,
       config = \<lparr> responseMimeType = js ''application/json'',
                  responseSchema = ANALYSIS_SCHEMA_GENAI \<rparr> \<rparr>"

section \<open>The environment\<close>

text \<open>
  \<open>ai.models.generateContent\<close> either resolves with a response, of which \<open>response.text\<close>
  is read (a string or \<open>undefined\<close>), or rejects; of what it rejects with, \<open>status\<close> and
  \<open>code\<close> are kept. An exception while the response is read is caught by the same
  handler as a rejection and counts as one. Every call settles: the capability that the
  service consumes returns a text or an error, and a call that stays pending for ever
  is outside the model. The remote side is a function of the request: within one call
  of the service every request names a different model, so this allows any behaviour
  of the remote side.

  \<open>JSON.parse\<close> returns a value or throws (\<open>None\<close>); it is a parameter too, and
  \<open>ecma_JSON_parse\<close> above is what it computes. Building the client (line 231) sends
  nothing and is taken to succeed; console output is left out.
\<close>

datatype response = Resolves (response_text: "jsstring option") | Rejects jsval jsval

record env =
  generateContent :: "request \<Rightarrow> response"
  JSON_parse :: "jsstring \<Rightarrow> json option"

section \<open>One candidate (the \<open>try\<close> body, lines 246-302)\<close>

definition attempt :: "env \<Rightarrow> request \<Rightarrow> caught + json" where
  "attempt E req =
     (case generateContent E req of
        Rejects st cd \<Rightarrow> Inl (Rejected st cd)
      | Resolves None \<Rightarrow> Inl EmptyResponse
      | Resolves (Some resultText) \<Rightarrow>
          (if resultText = [] then Inl EmptyResponse
           else
             (case JSON_parse E (cleanJson_of resultText) of
                None \<Rightarrow> Inl SyntaxError
              | Some parsedData \<Rightarrow>
                  (case zod_parse AnalysisResultSchema parsedData of
                     Inl issues \<Rightarrow> Inl (ZodError issues)
                   | Inr validatedResult \<Rightarrow> Inr validatedResult))))"

section \<open>The loop and the final error (lines 243-334)\<close>

text \<open>
  The \<open>catch\<close> block (lines 304-319) stores the error and computes its status code; both
  arms of its test end in \<open>continue\<close>. It returns the new \<open>lastError\<close>.
\<close>

definition catch_block :: "caught \<Rightarrow> caught option" where
  "catch_block error =
     (let lastError = Some error;
          statusCode = statusCode_of (Some error)
      in if strict_eq_num statusCode 429 \<or> strict_eq_num statusCode 404
            \<or> strict_eq_num statusCode 503
         then lastError
         else lastError)"

text \<open>
  \<open>for (const modelName of MODELS_TO_TRY)\<close>, over the names still to try: the result
  of the first candidate that succeeds, or the last error once the list is used up,
  with the requests sent, in the order they were sent, and the module state. Each
  turn builds its request from the state it has, and passes the state on.
\<close>

fun tryModels ::
  "env \<Rightarrow> module_state \<Rightarrow> inlineData \<Rightarrow> jsstring \<Rightarrow> caught option \<Rightarrow> jsstring list
     \<Rightarrow> (caught option + json) \<times> request list \<times> module_state" where
  "tryModels E st img context lastError [] = (Inl lastError, [], st)"
| "tryModels E st img context lastError (modelName # rest) =
     (let req = request_for st img context modelName
      in case attempt E req of
           Inr validatedResult \<Rightarrow> (Inr validatedResult, [req], st)
         | Inl error \<Rightarrow>
             (let (r, reqs, st') = tryModels E st img context (catch_block error) rest
              in (r, req # reqs, st')))"

text \<open>
  \<open>new Error(message)\<close>. Each of the three messages has a pictograph, written here as
  the code units that the source file has at that place.
\<close>

datatype js_error = Error (error_message: jsstring)

definition rate_limit_message :: jsstring where
  "rate_limit_message =
     js ''I've been a bit too busy helping others! '' @ [0xF8FF, 0x00FC, 0x00DF, 0x00F2]
       @ js '' Please take a deep breath and try again in a minute.''"

definition maintenance_message :: jsstring where
  "maintenance_message =
     js ''My medical database is currently undergoing maintenance. ''
       @ [0xF8FF, 0x00FC, 0x00A9, 0x222B] @ js '' Please check back in a few minutes!''"

definition all_busy_message :: jsstring where
  "all_busy_message =
     js ''All my health buddies are currently busy or unavailable. ''
       @ [0xF8FF, 0x00FC, 0x00E8, 0x2022] @ js '' Let's try one more snap in a bit!''"

text \<open>Lines 322-334: the error thrown when every candidate has failed.\<close>

definition exhausted :: "caught option \<Rightarrow> js_error" where
  "exhausted lastError =
     (let status = statusCode_of lastError
      in if strict_eq_num status 429 then Error rate_limit_message
         else if strict_eq_num status 404 then Error maintenance_message
         else Error all_busy_message)"

text \<open>
  A call of \<open>analyzeWound\<close>: what the promise settles with (\<open>Inl\<close> the error it rejects
  with), the requests sent, and the module state after the call.
\<close>

record run =
  settled :: "js_error + json"
  sent :: "request list"
  state_after :: module_state

definition analyzeWound :: "env \<Rightarrow> module_state \<Rightarrow> jsstring \<Rightarrow> jsstring \<Rightarrow> run" where
  "analyzeWound E st base64Image context =
     (let img = imagePart_of base64Image;
          (r, reqs, st') = tryModels E st img context None (MODELS_TO_TRY st)
      in \<lparr> settled = (case r of Inr validatedResult \<Rightarrow> Inr validatedResult
                          | Inl lastError \<Rightarrow> Inl (exhausted lastError)),
           sent = reqs,
           state_after = st' \<rparr>)"

section \<open>The first body of \<open>analyzeWound\<close> (lines 76-148)\<close>

text \<open>
  The source file defines \<open>analyzeWound\<close> twice. The sections above embed the second
  body (lines 230-335). The first body has the same image part, cleaning, parsing,
  schema and request configuration; it has its own candidate list and prompt, and at
  exhaustion it throws an Error with the message of the last error (line 148). So of
  what is caught, the message is kept here as well; it is taken to be a string, or
  missing. The messages of what the remote call rejects with, of the SyntaxError of
  \<open>JSON.parse\<close> and of the ZodError of the validator are parameters.
\<close>

definition module_init_first :: module_state where
  "module_init_first =
     \<lparr> MODELS_TO_TRY =
         [ js ''gemini-3-flash-preview'',
           js ''gemini-2.5-flash-native-audio-preview-12-2025'',
           js ''gemini-flash-lite-latest'',
           js ''gemini-3-pro-preview'' ],
       MEDICAL_PDF_KNOWLEDGE = MEDICAL_PDF_KNOWLEDGE_text \<rparr>"

definition prompt_intro_first :: jsstring where
  "prompt_intro_first = join_lines
     [ js ''You are AidPal, a friendly health buddy. Analyze this medical image.'',
       js ''        '',
       js ''        KNOWLEDGE BASE:'',
       js ''        '' ]"

definition prompt_context_label_first :: jsstring where
  "prompt_context_label_first = join_lines
     [ js '''',
       js ''        '',
       js ''        USER CONTEXT: '' ]"

definition prompt_instructions_first :: jsstring where
  "prompt_instructions_first = join_lines
     [ js '''',
       js ''        '',
       js ''        INSTRUCTIONS:'',
       js ''        1. Identify the condition clearly. '',
       js ''        2. Follow the KNOWLEDGE BASE protocols for first aid.'',
       js ''        3. Return ONLY a valid JSON object.'',
       js ''        4. Disclaimer: \"I'm a robot buddy, not a doc! This is not a professional diagnosis.\"'',
       js '''',
       js ''        REQUIRED JSON STRUCTURE:'',
       js ''        {'',
       js ''          \"woundType\": \"string\",'',
       js ''          \"severity\": \"Low\" | \"Medium\" | \"High\",'',
       js ''          \"description\": \"string\",'',
       js ''          \"firstAidSteps\": [\"string\"],'',
       js ''          \"recommendation\": \"string\"'',
       js ''        }'' ]"

definition promptText_first :: "jsstring \<Rightarrow> jsstring \<Rightarrow> jsstring" where
  "promptText_first knowledge context =
     prompt_intro_first @ knowledge @ prompt_context_label_first @ context_or_default context
       @ prompt_instructions_first"

definition request_for_first ::
  "module_state \<Rightarrow> inlineData \<Rightarrow> jsstring \<Rightarrow> jsstring \<Rightarrow> request" where
  "request_for_first st img context modelName =
     \<lparr> model = modelName,
       imagePart = img,
       promptPart = promptText_first (MEDICAL_PDF_KNOWLEDGE st) context,
       config = \<lparr> responseMimeType = js ''application/json'',
                  responseSchema = ANALYSIS_SCHEMA_GENAI \<rparr> \<rparr>"

datatype thrown =
  Thrown (thrown_status: jsval) (thrown_code: jsval) (thrown_message: "jsstring option")

record thrown_messages =
  rejection_message :: "request \<Rightarrow> jsstring option"
  syntax_error_message :: "jsstring \<Rightarrow> jsstring"
  zod_error_message :: "zod_issue list \<Rightarrow> jsstring"

text \<open>The \<open>try\<close> body, lines 92-138.\<close>

definition attempt_first :: "env \<Rightarrow> thrown_messages \<Rightarrow> request \<Rightarrow> thrown + json" where
  "attempt_first E M req =
     (case generateContent E req of
        Rejects st cd \<Rightarrow> Inl (Thrown st cd (rejection_message M req))
      | Resolves None \<Rightarrow> Inl (Thrown Undefined Undefined (Some (js ''Empty response'')))
      | Resolves (Some resultText) \<Rightarrow>
          (if resultText = [] then Inl (Thrown Undefined Undefined (Some (js ''Empty response'')))
           else
             (case JSON_parse E (cleanJson_of resultText) of
                None \<Rightarrow>
                  Inl (Thrown Undefined Undefined
                         (Some (syntax_error_message M (cleanJson_of resultText))))
              | Some parsedData \<Rightarrow>
                  (case zod_parse AnalysisResultSchema parsedData of
                     Inl issues \<Rightarrow>
                       Inl (Thrown Undefined Undefined (Some (zod_error_message M issues)))
                   | Inr validatedResult \<Rightarrow> Inr validatedResult))))"

text \<open>The \<open>catch\<close> block, lines 140-145: both arms of its test end in \<open>continue\<close>.\<close>

definition catch_block_first :: "thrown \<Rightarrow> thrown option" where
  "catch_block_first error =
     (let lastError = Some error;
          status = js_or (thrown_status error) (thrown_code error)
      in if strict_eq_num status 429 \<or> strict_eq_num status 404 \<or> strict_eq_num status 503
         then lastError
         else lastError)"

fun tryModels_first ::
  "env \<Rightarrow> thrown_messages \<Rightarrow> module_state \<Rightarrow> inlineData \<Rightarrow> jsstring \<Rightarrow> thrown option
     \<Rightarrow> jsstring list \<Rightarrow> (thrown option + json) \<times> request list \<times> module_state" where
  "tryModels_first E M st img context lastError [] = (Inl lastError, [], st)"
| "tryModels_first E M st img context lastError (modelName # rest) =
     (let req = request_for_first st img context modelName
      in case attempt_first E M req of
           Inr validatedResult \<Rightarrow> (Inr validatedResult, [req], st)
         | Inl error \<Rightarrow>
             (let (r, reqs, st') =
                    tryModels_first E M st img context (catch_block_first error) rest
              in (r, req # reqs, st')))"

definition busy_message_first :: jsstring where
  "busy_message_first =
     js ''All AI buddies are currently busy. Try again in a minute! ''
       @ [0xF8FF, 0x00FC, 0x00E8, 0x2022]"

text \<open>
  Line 148: \<open>throw new Error(lastError?.message || "...")\<close>; \<open>None\<close> is the \<open>null\<close> that
  \<open>lastError\<close> starts with.
\<close>

definition exhausted_first :: "thrown option \<Rightarrow> js_error" where
  "exhausted_first lastError =
     Error (or_else (case lastError of None \<Rightarrow> None | Some e \<Rightarrow> thrown_message e)
              busy_message_first)"

definition analyzeWound_first ::
  "env \<Rightarrow> thrown_messages \<Rightarrow> module_state \<Rightarrow> jsstring \<Rightarrow> jsstring \<Rightarrow> run" where
  "analyzeWound_first E M st base64Image context =
     (let img = imagePart_of base64Image;
          (r, reqs, st') = tryModels_first E M st img context None (MODELS_TO_TRY st)
      in \<lparr> settled = (case r of Inr validatedResult \<Rightarrow> Inr validatedResult
                          | Inl lastError \<Rightarrow> Inl (exhausted_first lastError)),
           sent = reqs,
           state_after = st' \<rparr>)"

section \<open>The result contract\<close>

text \<open>
  \<open>v[k]\<close> for a parsed value: the property of an object, \<open>None\<close> for \<open>undefined\<close>.
\<close>

definition property :: "json \<Rightarrow> jsstring \<Rightarrow> json option" where
  "property v k = (case v of JObject props \<Rightarrow> map_of props k | _ \<Rightarrow> None)"

definition own_keys :: "json \<Rightarrow> jsstring list" where
  "own_keys v = (case v of JObject props \<Rightarrow> map fst props | _ \<Rightarrow> [])"

definition schema_keys :: "jsstring list" where
  "schema_keys =
     [js ''woundType'', js ''severity'', js ''description'', js ''firstAidSteps'',
      js ''recommendation'']"

definition is_string :: "json \<Rightarrow> bool" where
  "is_string v = (case v of JString s \<Rightarrow> True | _ \<Rightarrow> False)"

definition nonempty_string :: "json option \<Rightarrow> bool" where
  "nonempty_string v = (case v of Some (JString s) \<Rightarrow> s \<noteq> [] | _ \<Rightarrow> False)"

definition severity_level :: "json option \<Rightarrow> bool" where
  "severity_level v =
     (case v of
        Some (JString s) \<Rightarrow> s = js ''Low'' \<or> s = js ''Medium'' \<or> s = js ''High''
      | _ \<Rightarrow> False)"

text \<open>
  The constraint on \<open>firstAidSteps\<close> in the words of the specification (a sequence of
  non-empty strings with at least one element), and the one the schema of the source
  states (an array of strings with at least one element).
\<close>

definition steps_as_specified :: "json option \<Rightarrow> bool" where
  "steps_as_specified v =
     (case v of
        Some (JArray xs) \<Rightarrow> xs \<noteq> [] \<and> list_all (\<lambda>x. nonempty_string (Some x)) xs
      | _ \<Rightarrow> False)"

definition steps_as_validated :: "json option \<Rightarrow> bool" where
  "steps_as_validated v =
     (case v of Some (JArray xs) \<Rightarrow> xs \<noteq> [] \<and> list_all is_string xs | _ \<Rightarrow> False)"

text \<open>
  The five field constraints of an AnalysisResult, first as the specification words
  them, then as the schema has them. They differ in \<open>firstAidSteps\<close> only.
\<close>

definition specified_AnalysisResult :: "json \<Rightarrow> bool" where
  "specified_AnalysisResult r \<longleftrightarrow>
     nonempty_string (property r (js ''woundType''))
     \<and> severity_level (property r (js ''severity''))
     \<and> nonempty_string (property r (js ''description''))
     \<and> steps_as_specified (property r (js ''firstAidSteps''))
     \<and> nonempty_string (property r (js ''recommendation''))"

definition validated_AnalysisResult :: "json \<Rightarrow> bool" where
  "validated_AnalysisResult r \<longleftrightarrow>
     nonempty_string (property r (js ''woundType''))
     \<and> severity_level (property r (js ''severity''))
     \<and> nonempty_string (property r (js ''description''))
     \<and> steps_as_validated (property r (js ''firstAidSteps''))
     \<and> nonempty_string (property r (js ''recommendation''))"

text \<open>The object that has the five keys of the schema with the values \<open>v\<close> has for them.\<close>

definition schema_fields :: "json \<Rightarrow> json" where
  "schema_fields v =
     JObject (List.map_filter (\<lambda>k. map_option (Pair k) (property v k)) schema_keys)"

section \<open>Candidate failures\<close>

text \<open>
  The ways a candidate can fail: the call rejects (whatever its status), the response
  has no text or an empty text, the cleaned text does not parse, or the parsed value
  breaks a constraint of the schema.
\<close>

definition candidate_fails :: "env \<Rightarrow> request \<Rightarrow> bool" where
  "candidate_fails E req =
     (case generateContent E req of
        Rejects st cd \<Rightarrow> True
      | Resolves None \<Rightarrow> True
      | Resolves (Some t) \<Rightarrow>
          t = [] \<or>
          (case JSON_parse E (cleanJson_of t) of
             None \<Rightarrow> True
           | Some obj \<Rightarrow> \<not> validated_AnalysisResult obj))"

text \<open>
  The status code of a failure, as lines 306 and 325 read it: \<open>status || code\<close> of what
  the call rejected with, and \<open>undefined\<close> for a failure raised in the \<open>try\<close> body.
\<close>

definition failure_status :: "env \<Rightarrow> request \<Rightarrow> jsval" where
  "failure_status E req =
     (case generateContent E req of
        Rejects st cd \<Rightarrow> js_or st cd
      | Resolves t \<Rightarrow> Undefined)"

text \<open>
  The message of a failure in the first body: the message of what the call rejected
  with, or the message of the error raised in the \<open>try\<close> body.
\<close>

definition failure_message :: "env \<Rightarrow> thrown_messages \<Rightarrow> request \<Rightarrow> jsstring option" where
  "failure_message E M req =
     (case generateContent E req of
        Rejects st cd \<Rightarrow> rejection_message M req
      | Resolves None \<Rightarrow> Some (js ''Empty response'')
      | Resolves (Some t) \<Rightarrow>
          if t = [] then Some (js ''Empty response'')
          else
            (case JSON_parse E (cleanJson_of t) of
               None \<Rightarrow> Some (syntax_error_message M (cleanJson_of t))
             | Some obj \<Rightarrow>
                 (case zod_parse AnalysisResultSchema obj of
                    Inl issues \<Rightarrow> Some (zod_error_message M issues)
                  | Inr v \<Rightarrow> None)))"

section \<open>The extraction as the specification words it\<close>

text \<open>
  The first balanced span of a text: from the first \<open>{\<close> to the \<open>}\<close> that closes it,
  counting the braces nested in between.
\<close>

fun balanced_rest :: "nat \<Rightarrow> jsstring \<Rightarrow> jsstring option" where
  "balanced_rest depth [] = None"
| "balanced_rest depth (c # cs) =
     (if c = 0x7B then map_option (Cons c) (balanced_rest (Suc depth) cs)
      else if c = 0x7D then
        (if depth = 0 then Some [c] else map_option (Cons c) (balanced_rest (depth - 1) cs))
      else map_option (Cons c) (balanced_rest depth cs))"

definition first_balanced_span :: "jsstring \<Rightarrow> jsstring option" where
  "first_balanced_span s =
     (case dropWhile (\<lambda>c. c \<noteq> 0x7B) s of
        [] \<Rightarrow> None
      | c # cs \<Rightarrow> map_option (Cons c) (balanced_rest 0 cs))"

section \<open>Example runs\<close>

text \<open>A remote side given by a table from model names to responses.\<close>

definition replies :: "(jsstring \<times> response) list \<Rightarrow> response \<Rightarrow> request \<Rightarrow> response" where
  "replies table otherwise req =
     (case map_of table (model req) of Some r \<Rightarrow> r | None \<Rightarrow> otherwise)"

definition knee_image :: jsstring where
  "knee_image = js ''data:image/jpeg;base64,/9j/4AAQSkZJRgABAQ==''"

definition knee_text :: jsstring where
  "knee_text = js ''{\"woundType\":\"Scrape (Abrasion)\",\"severity\":\"Low\",\"description\":\"...\",\"firstAidSteps\":[\"Wash with soap/water\",\"Apply ointment\"],\"recommendation\":\"Monitor at home\"}''"

definition knee_object :: json where
  "knee_object = JObject
     [ (js ''woundType'', JString (js ''Scrape (Abrasion)'')),
       (js ''severity'', JString (js ''Low'')),
       (js ''description'', JString (js ''...'')),
       (js ''firstAidSteps'',
          JArray [JString (js ''Wash with soap/water''), JString (js ''Apply ointment'')]),
       (js ''recommendation'', JString (js ''Monitor at home'')) ]"

definition env_knee :: env where
  "env_knee =
     \<lparr> generateContent =
         replies [(js ''gemini-3-flash-preview'', Resolves (Some knee_text))]
           (Rejects (Number 503) Undefined),
       JSON_parse = ecma_JSON_parse \<rparr>"

definition missing_steps_text :: jsstring where
  "missing_steps_text = js ''{\"woundType\":\"Cut\",\"severity\":\"Low\",\"description\":\"x\",\"recommendation\":\"y\"}''"

definition env_all_fail :: env where
  "env_all_fail =
     \<lparr> generateContent =
         replies
           [ (js ''gemini-3-flash-preview'', Resolves (Some missing_steps_text)),
             (js ''gemini-2.5-flash-native-audio-preview-12-2025'', Rejects (Number 429) Undefined),
             (js ''gemini-flash-lite-latest'', Rejects (Number 404) Undefined),
             (js ''gemini-3-pro-preview'', Rejects (Number 503) Undefined),
             (js ''gemini-2.5-pro'', Rejects Undefined Undefined),
             (js ''gemini-2.5-flash'', Resolves (Some [])),
             (js ''gemini-2.5-flash-lite'', Resolves (Some (js ''Sorry, I cannot help with that.''))) ]
           (Rejects (Number 500) Undefined),
       JSON_parse = ecma_JSON_parse \<rparr>"

definition env_rate_limited_last :: env where
  "env_rate_limited_last =
     \<lparr> generateContent =
         replies [(js ''gemini-2.5-flash-lite'', Rejects (Number 429) Undefined)]
           (Rejects (Number 404) Undefined),
       JSON_parse = ecma_JSON_parse \<rparr>"

definition blank_step_text :: jsstring where
  "blank_step_text = js ''{\"woundType\":\"Cut\",\"severity\":\"Low\",\"description\":\"x\",\"firstAidSteps\":[\"\"],\"recommendation\":\"y\"}''"

definition blank_step_object :: json where
  "blank_step_object = JObject
     [ (js ''woundType'', JString (js ''Cut'')), (js ''severity'', JString (js ''Low'')),
       (js ''description'', JString (js ''x'')), (js ''firstAidSteps'', JArray [JString []]),
       (js ''recommendation'', JString (js ''y'')) ]"

definition env_blank_step :: env where
  "env_blank_step =
     \<lparr> generateContent =
         replies [(js ''gemini-3-flash-preview'', Resolves (Some blank_step_text))]
           (Rejects (Number 503) Undefined),
       JSON_parse = ecma_JSON_parse \<rparr>"

definition extra_keys_text :: jsstring where
  "extra_keys_text = js ''{\"confidence\":0.9,\"woundType\":\"Cut\",\"severity\":\"High\",\"description\":\"Deep cut\",\"firstAidSteps\":[\"Press with clean cloth\"],\"recommendation\":\"Visit a clinic\",\"notes\":null}''"

definition extra_keys_props :: "(jsstring \<times> json) list" where
  "extra_keys_props =
     [ (js ''confidence'', JNumber (js ''0.9'')),
       (js ''woundType'', JString (js ''Cut'')), (js ''severity'', JString (js ''High'')),
       (js ''description'', JString (js ''Deep cut'')),
       (js ''firstAidSteps'', JArray [JString (js ''Press with clean cloth'')]),
       (js ''recommendation'', JString (js ''Visit a clinic'')),
       (js ''notes'', JNull) ]"

definition extra_keys_result :: json where
  "extra_keys_result = JObject
     [ (js ''woundType'', JString (js ''Cut'')), (js ''severity'', JString (js ''High'')),
       (js ''description'', JString (js ''Deep cut'')),
       (js ''firstAidSteps'', JArray [JString (js ''Press with clean cloth'')]),
       (js ''recommendation'', JString (js ''Visit a clinic'')) ]"

definition env_extra_keys :: env where
  "env_extra_keys =
     \<lparr> generateContent =
         replies
           [ (js ''gemini-3-flash-preview'', Rejects (Number 429) Undefined),
             (js ''gemini-2.5-flash-native-audio-preview-12-2025'',
                Resolves (Some extra_keys_text)) ]
           (Rejects (Number 503) Undefined),
       JSON_parse = ecma_JSON_parse \<rparr>"

definition env_prose_after :: env where
  "env_prose_after =
     \<lparr> generateContent = replies [] (Resolves (Some (knee_text @ js '' (see {note})''))),
       JSON_parse = ecma_JSON_parse \<rparr>"

definition env_pure :: env where
  "env_pure =
     \<lparr> generateContent = replies [] (Resolves (Some knee_text)),
       JSON_parse = ecma_JSON_parse \<rparr>"

definition env_fenced :: env where
  "env_fenced =
     \<lparr> generateContent =
         replies [] (Resolves (Some (js ''Here is the report: ```json'' @ [0x0A] @ knee_text
                                       @ [0x0A] @ js ''```''))),
       JSON_parse = ecma_JSON_parse \<rparr>"

definition env_quota :: env where
  "env_quota =
     \<lparr> generateContent = replies [] (Rejects (Number 429) Undefined),
       JSON_parse = ecma_JSON_parse \<rparr>"

definition messages_quota :: thrown_messages where
  "messages_quota =
     \<lparr> rejection_message = (\<lambda>req. Some (js ''Quota exceeded.'')),
       syntax_error_message = (\<lambda>t. js ''Unexpected token''),
       zod_error_message = (\<lambda>issues. js ''Invalid input'') \<rparr>"

section \<open>Facts about strings and the image part\<close>

lemma of_char_word_eq_iff: "(of_char c :: jschar) = of_char d \<longleftrightarrow> c = d"
proof
  assume eq: "(of_char c :: jschar) = of_char d"
  have u: "unat (of_char x :: jschar) = of_char x" for x
  proof -
    have "(of_char x :: nat) < 2 ^ 16"
      by (rule less_trans[OF nat_of_char_less_256]) simp
    then have "unat (of_nat (of_char x) :: jschar) = of_char x"
      by (simp add: unat_of_nat take_bit_nat_eq_self)
    then show ?thesis by (simp add: of_nat_of_char)
  qed
  from eq have "unat (of_char c :: jschar) = unat (of_char d :: jschar)" by simp
  then have "(of_char c :: nat) = of_char d" by (simp add: u)
  then show "c = d" by simp
qed simp

lemma js_eq_iff: "js a = js b \<longleftrightarrow> a = b"
proof -
  have "inj (of_char :: char \<Rightarrow> jschar)"
    by (simp add: inj_def of_char_word_eq_iff)
  then show ?thesis
    by (simp add: js_def inj_map_eq_map)
qed

lemma js_Nil_iff: "js a = [] \<longleftrightarrow> a = []"
  by (simp add: js_def)

lemma split_not_Nil: "split sep s \<noteq> []"
  by (induction s) (auto split: list.splits)

lemma split_no_sep: "sep \<notin> set s \<Longrightarrow> split sep s = [s]"
  by (induction s) auto

lemma split_append_sep:
  "sep \<notin> set p \<Longrightarrow> split sep (p @ sep # r) = p # split sep r"
  by (induction p) auto

lemma js_data: "js ''data:'' = [0x64,0x61,0x74,0x61,0x3A]" by (simp add: js_def)

lemma js_b64: "js '';base64,'' = [0x3B,0x62,0x61,0x73,0x65,0x36,0x34,0x2C]" by (simp add: js_def)

lemma data_with_prefix:
  assumes "0x2C \<notin> set mt" "p \<noteq> []" "0x2C \<notin> set p"
  shows "base64Data_of (js ''data:'' @ mt @ js '';base64,'' @ p) = p"
proof -
  let ?h = "[0x64,0x61,0x74,0x61,0x3A] @ mt @ [0x3B,0x62,0x61,0x73,0x65,0x36,0x34 :: jschar]"
  have s: "js ''data:'' @ mt @ js '';base64,'' @ p = ?h @ 0x2C # p"
    by (simp add: js_data js_b64)
  have "0x2C \<notin> set ?h" using assms(1) by simp
  then have "split 0x2C (?h @ 0x2C # p) = ?h # split 0x2C p"
    by (rule split_append_sep)
  also have "split 0x2C p = [p]" using assms(3) by (rule split_no_sep)
  finally show ?thesis using assms(2)
    unfolding s base64Data_of_def by (simp add: at_index_def or_else_def)
qed

lemma mime_with_prefix:
  assumes "mt \<noteq> []" "0x3B \<notin> set mt" "0x3A \<notin> set mt"
  shows "mimeType_of (js ''data:'' @ mt @ js '';base64,'' @ p) = mt"
proof -
  let ?h = "[0x64,0x61,0x74,0x61,0x3A] @ mt"
  let ?r = "[0x62,0x61,0x73,0x65,0x36,0x34,0x2C :: jschar] @ p"
  have s: "js ''data:'' @ mt @ js '';base64,'' @ p = ?h @ 0x3B # ?r"
    by (simp add: js_data js_b64)
  have "0x3B \<notin> set ?h" using assms(2) by simp
  then have "split 0x3B (?h @ 0x3B # ?r) = ?h # split 0x3B ?r"
    by (rule split_append_sep)
  then have first: "at_index (split 0x3B (?h @ 0x3B # ?r)) 0 = Some ?h"
    by (simp only: at_index_def) simp
  have "split 0x3A ([0x64,0x61,0x74,0x61] @ 0x3A # mt) = [0x64,0x61,0x74,0x61] # split 0x3A mt"
    by (rule split_append_sep) simp
  also have "split 0x3A mt = [mt]" using assms(3) by (rule split_no_sep)
  finally have "split 0x3A ?h = [[0x64,0x61,0x74,0x61], mt]" by simp
  then have second: "at_index (split 0x3A ?h) 1 = Some mt"
    by (simp only: at_index_def) simp
  show ?thesis
    unfolding s mimeType_of_def first using assms(1)
    by (simp only: option.case second or_else_def) simp
qed

lemma data_without_comma: "0x2C \<notin> set img \<Longrightarrow> base64Data_of img = img"
  by (simp add: base64Data_of_def split_no_sep at_index_def or_else_def)

lemma mime_without_colon:
  assumes "0x3A \<notin> set img"
  shows "mimeType_of img = js ''image/jpeg''"
proof -
  obtain p ps where sp: "split 0x3B img = p # ps"
    using split_not_Nil[where sep="0x3B" and s=img] by (cases "split 0x3B img") auto
  have "concat (split 0x3B img) = filter (\<lambda>c. c \<noteq> 0x3B) img" for img :: jsstring
    by (induction img) (auto split: list.splits)
  then have "set p \<subseteq> set img"
    using sp by (metis concat.simps(2) filter_is_subset le_sup_iff set_append)
  with assms have "0x3A \<notin> set p" by auto
  then have "split 0x3A p = [p]" by (rule split_no_sep)
  with sp show ?thesis
    by (simp add: mimeType_of_def at_index_def or_else_def)
qed

section \<open>Facts about cleaning the response text\<close>

lemma open_brace_not_space: "\<not> isWhiteSpace 0x7B"
  by (simp add: isWhiteSpace_def)

lemma close_brace_not_space: "\<not> isWhiteSpace 0x7D"
  by (simp add: isWhiteSpace_def)

lemma dropWhile_before_stop:
  assumes "\<not> P c"
  shows "\<exists>xs'. dropWhile P (xs @ c # ys) = xs' @ c # ys \<and> set xs' \<subseteq> set xs"
proof (cases "\<forall>x \<in> set xs. P x")
  case True
  then have "dropWhile P (xs @ c # ys) = [] @ c # ys"
    using assms by (simp add: dropWhile_append2)
  then show ?thesis by (intro exI[of _ "[]"]) simp
next
  case False
  then obtain x where "x \<in> set xs" "\<not> P x" by blast
  then have "dropWhile P (xs @ c # ys) = dropWhile P xs @ c # ys"
    by (rule dropWhile_append1)
  moreover have "set (dropWhile P xs) \<subseteq> set xs"
    by (simp add: set_dropWhileD subsetI)
  ultimately show ?thesis by blast
qed

lemma trim_wrapped:
  "\<exists>pre' post'. trim (pre @ (0x7B # body @ [0x7D]) @ post) = pre' @ (0x7B # body @ [0x7D]) @ post'
      \<and> set pre' \<subseteq> set pre \<and> set post' \<subseteq> set post"
proof -
  from dropWhile_before_stop[of isWhiteSpace "0x7B" pre "body @ [0x7D] @ post", OF open_brace_not_space]
  obtain pre' where p: "dropWhile isWhiteSpace (pre @ 0x7B # body @ [0x7D] @ post) = pre' @ 0x7B # body @ [0x7D] @ post"
    "set pre' \<subseteq> set pre" by blast
  have r: "rev (pre' @ 0x7B # body @ [0x7D] @ post) = rev post @ 0x7D # (rev body @ 0x7B # rev pre')"
    by simp
  from dropWhile_before_stop[of isWhiteSpace "0x7D" "rev post" "rev body @ 0x7B # rev pre'", OF close_brace_not_space]
  obtain q where q: "dropWhile isWhiteSpace (rev post @ 0x7D # (rev body @ 0x7B # rev pre')) = q @ 0x7D # (rev body @ 0x7B # rev pre')"
    "set q \<subseteq> set (rev post)" by blast
  have "trim (pre @ (0x7B # body @ [0x7D]) @ post) = pre' @ (0x7B # body @ [0x7D]) @ rev q"
    unfolding trim_def using p(1) q(1) r by simp
  moreover have "set (rev q) \<subseteq> set post" using q(2) by simp
  ultimately show ?thesis using p(2) by blast
qed

lemma match_braces_wrapped:
  assumes "0x7B \<notin> set pre" "0x7D \<notin> set post"
  shows "match_braces (pre @ (0x7B # body @ [0x7D]) @ post) = Some (0x7B # body @ [0x7D])"
proof -
  have "\<And>x. x \<in> set pre \<Longrightarrow> x \<noteq> 0x7B" using assms(1) by auto
  then have "dropWhile (\<lambda>c. c \<noteq> 0x7B) (pre @ (0x7B # body @ [0x7D]) @ post)
      = dropWhile (\<lambda>c. c \<noteq> 0x7B) ((0x7B # body @ [0x7D]) @ post)"
    by (rule dropWhile_append2)
  then have 1: "dropWhile (\<lambda>c. c \<noteq> 0x7B) (pre @ (0x7B # body @ [0x7D]) @ post) = 0x7B # body @ [0x7D] @ post"
    by simp
  have "rev (0x7B # body @ [0x7D] @ post) = rev post @ 0x7D # rev body @ [0x7B]" by simp
  moreover have "\<And>x. x \<in> set (rev post) \<Longrightarrow> x \<noteq> 0x7D" using assms(2) by auto
  then have "dropWhile (\<lambda>c. c \<noteq> 0x7D) (rev post @ 0x7D # rev body @ [0x7B])
      = dropWhile (\<lambda>c. c \<noteq> 0x7D) (0x7D # rev body @ [0x7B])"
    by (rule dropWhile_append2)
  then have "dropWhile (\<lambda>c. c \<noteq> 0x7D) (rev post @ 0x7D # rev body @ [0x7B]) = 0x7D # rev body @ [0x7B]"
    by simp
  ultimately have 2: "rev (dropWhile (\<lambda>c. c \<noteq> 0x7D) (rev (0x7B # body @ [0x7D] @ post))) = 0x7B # body @ [0x7D]"
    by simp
  show ?thesis
    unfolding match_braces_def 1 Let_def 2 by simp
qed

lemma cleanJson_of_wrapped:
  assumes "0x7B \<notin> set pre" "0x7D \<notin> set post"
  shows "cleanJson_of (pre @ (0x7B # body @ [0x7D]) @ post) = 0x7B # body @ [0x7D]"
proof -
  from trim_wrapped[of pre body post] obtain pre' post' where
    t: "trim (pre @ (0x7B # body @ [0x7D]) @ post) = pre' @ (0x7B # body @ [0x7D]) @ post'"
    and s: "set pre' \<subseteq> set pre" "set post' \<subseteq> set post" by blast
  from s assms have "0x7B \<notin> set pre'" "0x7D \<notin> set post'" by auto
  from match_braces_wrapped[OF this, of body] show ?thesis
    unfolding cleanJson_of_def Let_def t by simp
qed

text \<open>
  What the pattern of line 293 matches: it matches a text exactly when some \<open>{\<close> has
  a \<open>}\<close> after it, and then the match runs from the first \<open>{\<close> to the last \<open>}\<close>.
\<close>

lemma match_braces_Some_decomposes:
  assumes "match_braces s = Some m"
  shows "\<exists>pre body post. s = pre @ (0x7B # body @ [0x7D]) @ post
           \<and> 0x7B \<notin> set pre \<and> 0x7D \<notin> set post \<and> m = 0x7B # body @ [0x7D]"
proof -
  let ?pre = "takeWhile (\<lambda>c. c \<noteq> 0x7B) s"
  let ?from = "dropWhile (\<lambda>c. c \<noteq> 0x7B) s"
  let ?tail = "takeWhile (\<lambda>c. c \<noteq> 0x7D) (rev ?from)"
  let ?upto = "dropWhile (\<lambda>c. c \<noteq> 0x7D) (rev ?from)"
  from assms have m: "m = rev ?upto" and ne: "?upto \<noteq> []"
    by (auto simp: match_braces_def Let_def split: if_splits)
  have s: "s = ?pre @ ?from" by simp
  have fr: "?from = rev ?upto @ rev ?tail"
    by (metis rev_append rev_rev_ident takeWhile_dropWhile_id)
  have "?from \<noteq> []"
  proof
    assume a: "?from = []"
    have "?upto = []" unfolding a by simp
    with ne show False by simp
  qed
  then obtain r where r: "?from = 0x7B # r"
    by (metis (mono_tags, lifting) hd_dropWhile list.collapse)
  from ne obtain u where u: "?upto = 0x7D # u"
    by (metis (mono_tags, lifting) hd_dropWhile list.collapse)
  then have ru: "rev ?upto = rev u @ [0x7D]" by simp
  have "rev u \<noteq> []"
  proof
    assume "rev u = []"
    with ru fr r show False by (cases "rev ?tail") auto
  qed
  then obtain body where body: "rev u = 0x7B # body"
    using ru fr r by (cases "rev u") auto
  have pre: "0x7B \<notin> set ?pre"
    by (auto dest: set_takeWhileD)
  have post: "0x7D \<notin> set (rev ?tail)"
    by (auto dest: set_takeWhileD)
  have "s = ?pre @ (0x7B # body @ [0x7D]) @ rev ?tail"
    using s fr ru body by (metis append.assoc append_Cons)
  moreover have "m = 0x7B # body @ [0x7D]"
    using m ru body by simp
  ultimately show ?thesis using pre post by blast
qed

lemma match_braces_iff:
  "match_braces s = Some m \<longleftrightarrow>
     (\<exists>pre body post. s = pre @ (0x7B # body @ [0x7D]) @ post
        \<and> 0x7B \<notin> set pre \<and> 0x7D \<notin> set post \<and> m = 0x7B # body @ [0x7D])"
  using match_braces_Some_decomposes[of s m] match_braces_wrapped by blast

lemma match_braces_None_iff:
  "match_braces s = None \<longleftrightarrow> \<not> (\<exists>a b c. s = a @ 0x7B # b @ 0x7D # c)"
proof
  assume none: "match_braces s = None"
  show "\<not> (\<exists>a b c. s = a @ 0x7B # b @ 0x7D # c)"
  proof
    assume "\<exists>a b c. s = a @ 0x7B # b @ 0x7D # c"
    then obtain a b c where s: "s = a @ 0x7B # b @ 0x7D # c" by blast
    have "\<exists>a'. dropWhile (\<lambda>c. c \<noteq> 0x7B) (a @ 0x7B # b @ 0x7D # c) = a' @ 0x7B # b @ 0x7D # c
        \<and> set a' \<subseteq> set a"
      by (rule dropWhile_before_stop) simp
    then have "0x7D \<in> set (rev (dropWhile (\<lambda>c. c \<noteq> 0x7B) s))"
      unfolding s by auto
    then have ne: "dropWhile (\<lambda>c. c \<noteq> 0x7D) (rev (dropWhile (\<lambda>c. c \<noteq> 0x7B) s)) \<noteq> []"
      unfolding dropWhile_eq_Nil_conv by blast
    with none show False
      by (auto simp: match_braces_def Let_def split: if_splits)
  qed
next
  assume no: "\<not> (\<exists>a b c. s = a @ 0x7B # b @ 0x7D # c)"
  show "match_braces s = None"
  proof (cases "match_braces s")
    case (Some m)
    from match_braces_Some_decomposes[OF Some] obtain pre body post where
      "s = pre @ (0x7B # body @ [0x7D]) @ post" by blast
    then have "s = pre @ 0x7B # body @ 0x7D # post" by simp
    with no show ?thesis by blast
  qed simp
qed

section \<open>Facts about the validator\<close>

lemma collect_Inr_iff: "collect rs = Inr ys \<longleftrightarrow> rs = map Inr ys"
proof (induction rs arbitrary: ys)
  case Nil
  then show ?case by auto
next
  case (Cons r rs)
  show ?case
  proof (cases r)
    case (Inl i)
    then show ?thesis by (cases "collect rs") auto
  next
    case (Inr x)
    show ?thesis
    proof (cases "collect rs")
      case (Inl iss)
      then have "rs \<noteq> map Inr zs" for zs
        using Cons.IH[of zs] by simp
      with Inr Inl show ?thesis by (cases ys) auto
    next
      case inr: (Inr xs)
      then have rs: "rs = map Inr xs"
        using Cons.IH[of xs] by simp
      have "inj (Inr :: 'a \<Rightarrow> zod_issue list + 'a)" by (simp add: inj_def)
      then have "map (Inr :: 'a \<Rightarrow> zod_issue list + 'a) xs = map Inr zs \<longleftrightarrow> xs = zs" for zs
        by (simp add: inj_map_eq_map)
      with Inr inr rs show ?thesis by (cases ys) auto
    qed
  qed
qed

lemma z_string_Inr_iff: "z_string p v = Inr x \<longleftrightarrow> (\<exists>s. v = Some (JString s) \<and> x = JString s)"
  by (auto simp: z_string_def split: option.splits json.splits)

lemma z_string_min_Inr_iff:
  "z_string_min n msg p v = Inr x \<longleftrightarrow> (\<exists>s. v = Some (JString s) \<and> n \<le> length s \<and> x = JString s)"
  by (auto simp: z_string_min_def z_string_def split: option.splits json.splits sum.splits)

lemma z_enum_Inr_iff:
  "z_enum options p v = Inr x \<longleftrightarrow> (\<exists>s. v = Some (JString s) \<and> s \<in> set options \<and> x = JString s)"
  by (auto simp: z_enum_def split: option.splits json.splits)

lemma strings_elems:
  "map (\<lambda>(i, x). z_string (p @ [Index i]) (Some x)) (enumerate n xs) = map Inr ys
     \<longleftrightarrow> ys = xs \<and> (\<exists>ss. xs = map JString ss)"
proof (induction xs arbitrary: n ys)
  case Nil
  then show ?case by auto
next
  case (Cons x xs)
  show ?case
  proof (cases ys)
    case Nil
    then show ?thesis by simp
  next
    case (Cons y ys')
    have "(\<exists>ss. x # xs = map JString ss) \<longleftrightarrow> (\<exists>s. x = JString s) \<and> (\<exists>ss. xs = map JString ss)"
      by (auto simp: map_eq_Cons_conv Cons_eq_map_conv)
    with Cons Cons.IH[of "Suc n" ys'] show ?thesis
      by (auto simp: z_string_Inr_iff)
  qed
qed

lemma z_array_min_Inr_iff:
  "z_array_min z_string n msg p v = Inr x \<longleftrightarrow>
     (\<exists>ss. v = Some (JArray (map JString ss)) \<and> n \<le> length ss \<and> x = JArray (map JString ss))"
proof (cases v)
  case None
  then show ?thesis by (simp add: z_array_min_def)
next
  case (Some j)
  show ?thesis
  proof (cases j)
    case (JArray xs)
    let ?c = "collect (map (\<lambda>(i, x). z_string (p @ [Index i]) (Some x)) (enumerate 0 xs))"
    show ?thesis
    proof (cases ?c)
      case (Inl iss)
      then have "\<not> (\<exists>ss. xs = map JString ss)"
        using collect_Inr_iff[of "map (\<lambda>(i, x). z_string (p @ [Index i]) (Some x)) (enumerate 0 xs)" xs]
             strings_elems[of p 0 xs xs] by auto
      with Inl Some JArray show ?thesis
        by (auto simp: z_array_min_def Let_def)
    next
      case (Inr ys)
      then have ys: "ys = xs" and ss: "\<exists>ss. xs = map JString ss"
        using collect_Inr_iff[of "map (\<lambda>(i, x). z_string (p @ [Index i]) (Some x)) (enumerate 0 xs)" ys]
             strings_elems[of p 0 xs ys] by auto
      from Inr Some JArray ys ss show ?thesis
        by (auto simp: z_array_min_def Let_def)
    qed
  qed (use Some in \<open>simp_all add: z_array_min_def\<close>)
qed

lemma collect_map_Inr: "collect (map Inr ys) = Inr ys"
  by (simp add: collect_Inr_iff)

lemma z_object_Inr_iff:
  "z_object shape p v = Inr r \<longleftrightarrow>
     (\<exists>props kvs. v = Some (JObject props) \<and> r = JObject kvs \<and>
        map (\<lambda>(k, schema). map_sum id (Pair k) (schema (p @ [Key k]) (map_of props k))) shape
          = map Inr kvs)"
proof (cases v)
  case None
  then show ?thesis by (simp add: z_object_def)
next
  case (Some j)
  show ?thesis
  proof (cases j)
    case (JObject props)
    with Some show ?thesis
      by (auto simp: z_object_def collect_Inr_iff collect_map_Inr split: sum.splits)
  qed (use Some in \<open>simp_all add: z_object_def\<close>)
qed

lemma map_sum_Pair_Inr_iff: "map_sum id (Pair k) x = Inr kv \<longleftrightarrow> (\<exists>y. x = Inr y \<and> kv = (k, y))"
  by (cases x) auto

lemma AnalysisResultSchema_Inr_iff:
  "zod_parse AnalysisResultSchema obj = Inr r \<longleftrightarrow>
     (\<exists>props w s d ss rc.
        obj = JObject props
        \<and> map_of props (js ''woundType'') = Some (JString w) \<and> w \<noteq> []
        \<and> map_of props (js ''severity'') = Some (JString s)
        \<and> s \<in> {js ''Low'', js ''Medium'', js ''High''}
        \<and> map_of props (js ''description'') = Some (JString d) \<and> d \<noteq> []
        \<and> map_of props (js ''firstAidSteps'') = Some (JArray (map JString ss)) \<and> ss \<noteq> []
        \<and> map_of props (js ''recommendation'') = Some (JString rc) \<and> rc \<noteq> []
        \<and> r = JObject
            [ (js ''woundType'', JString w), (js ''severity'', JString s),
              (js ''description'', JString d), (js ''firstAidSteps'', JArray (map JString ss)),
              (js ''recommendation'', JString rc) ])"
  (is "?L \<longleftrightarrow> ?R")
proof
  assume ?L
  then obtain props kvs where obj: "obj = JObject props" and r: "r = JObject kvs"
    and m: "map (\<lambda>(k, schema). map_sum id (Pair k) (schema ([] @ [Key k]) (map_of props k)))
       [ (js ''woundType'', z_string_min 1 (js ''Wound type is required'')),
       (js ''severity'', z_enum [js ''Low'', js ''Medium'', js ''High'']),
       (js ''description'', z_string_min 1 (js ''Description is required'')),
       (js ''firstAidSteps'',
          z_array_min z_string 1 (js ''At least one first aid step is required'')),
       (js ''recommendation'', z_string_min 1 (js ''Recommendation is required'')) ] = map Inr kvs"
    unfolding zod_parse_def AnalysisResultSchema_def z_object_Inr_iff by auto
  from m obtain k1 k2 k3 k4 k5 where kvs: "kvs = [k1, k2, k3, k4, k5]"
    by (auto simp: Cons_eq_map_conv)
  from m[unfolded kvs] show ?R
    unfolding obj r kvs 
    by (simp add: map_sum_Pair_Inr_iff z_string_min_Inr_iff z_enum_Inr_iff z_array_min_Inr_iff Suc_le_eq) blast
next
  assume ?R
  then show ?L
    unfolding zod_parse_def AnalysisResultSchema_def z_object_Inr_iff
    by (auto simp: map_sum_Pair_Inr_iff z_string_min_Inr_iff z_enum_Inr_iff z_array_min_Inr_iff Suc_le_eq)
qed

lemma list_all_is_string_iff: "list_all is_string xs \<longleftrightarrow> (\<exists>ss. xs = map JString ss)"
proof (induction xs)
  case Nil
  then show ?case by simp
next
  case (Cons x xs)
  have "(\<exists>ss. x # xs = map JString ss) \<longleftrightarrow> (\<exists>s. x = JString s) \<and> (\<exists>ss. xs = map JString ss)"
    by (auto simp: Cons_eq_map_conv)
  moreover have "is_string x \<longleftrightarrow> (\<exists>s. x = JString s)"
    by (cases x) (simp_all add: is_string_def)
  ultimately show ?case using Cons.IH by simp
qed

lemma nonempty_string_iff: "nonempty_string v \<longleftrightarrow> (\<exists>s. v = Some (JString s) \<and> s \<noteq> [])"
  by (auto simp: nonempty_string_def split: option.splits json.splits)

lemma severity_level_iff:
  "severity_level v \<longleftrightarrow>
     (\<exists>s. v = Some (JString s) \<and> s \<in> {js ''Low'', js ''Medium'', js ''High''})"
  by (auto simp: severity_level_def split: option.splits json.splits)

lemma steps_as_validated_iff:
  "steps_as_validated v \<longleftrightarrow> (\<exists>ss. v = Some (JArray (map JString ss)) \<and> ss \<noteq> [])"
  by (auto simp: steps_as_validated_def list_all_is_string_iff split: option.splits json.splits)

lemma validated_is_object: "validated_AnalysisResult v \<Longrightarrow> \<exists>props. v = JObject props"
  by (cases v) (simp_all add: validated_AnalysisResult_def property_def nonempty_string_def)

lemma zod_parse_AnalysisResultSchema_iff:
  "zod_parse AnalysisResultSchema obj = Inr r \<longleftrightarrow>
     validated_AnalysisResult obj \<and> r = schema_fields obj"
proof
  assume "zod_parse AnalysisResultSchema obj = Inr r"
  then show "validated_AnalysisResult obj \<and> r = schema_fields obj"
    unfolding AnalysisResultSchema_Inr_iff validated_AnalysisResult_def nonempty_string_iff
      severity_level_iff steps_as_validated_iff
    by (auto simp: property_def schema_fields_def schema_keys_def List.map_filter_simps)
next
  assume a: "validated_AnalysisResult obj \<and> r = schema_fields obj"
  then obtain props where obj: "obj = JObject props"
    using validated_is_object by blast
  from a show "zod_parse AnalysisResultSchema obj = Inr r"
    unfolding AnalysisResultSchema_Inr_iff validated_AnalysisResult_def nonempty_string_iff
      severity_level_iff steps_as_validated_iff obj
    by (auto simp: property_def schema_fields_def schema_keys_def List.map_filter_simps)
qed

lemma zod_parse_AnalysisResultSchema_Inl_iff:
  "isl (zod_parse AnalysisResultSchema obj) \<longleftrightarrow> \<not> validated_AnalysisResult obj"
  using zod_parse_AnalysisResultSchema_iff[of obj]
  by (cases "zod_parse AnalysisResultSchema obj") auto

lemma schema_keys_distinct: "distinct schema_keys"
  by (simp add: schema_keys_def js_def)

lemma schema_fields_of_valid:
  assumes "validated_AnalysisResult obj"
  shows "own_keys (schema_fields obj) = schema_keys"
    and "k \<in> set schema_keys \<Longrightarrow> property (schema_fields obj) k = property obj k"
    and "k \<notin> set schema_keys \<Longrightarrow> property (schema_fields obj) k = None"
    and "validated_AnalysisResult (schema_fields obj)"
proof -
  from assms obtain w s d st rc where p:
    "property obj (js ''woundType'') = Some w" "property obj (js ''severity'') = Some s"
    "property obj (js ''description'') = Some d" "property obj (js ''firstAidSteps'') = Some st"
    "property obj (js ''recommendation'') = Some rc"
    unfolding validated_AnalysisResult_def nonempty_string_iff severity_level_iff
      steps_as_validated_iff by blast
  then have sf: "schema_fields obj = JObject
     [(js ''woundType'', w), (js ''severity'', s), (js ''description'', d),
      (js ''firstAidSteps'', st), (js ''recommendation'', rc)]"
    by (simp add: schema_fields_def schema_keys_def List.map_filter_simps)
  show "own_keys (schema_fields obj) = schema_keys"
    unfolding sf by (simp add: own_keys_def schema_keys_def)
  have d: "js ''woundType'' \<noteq> js ''severity''" "js ''woundType'' \<noteq> js ''description''"
    "js ''woundType'' \<noteq> js ''firstAidSteps''" "js ''woundType'' \<noteq> js ''recommendation''"
    "js ''severity'' \<noteq> js ''description''" "js ''severity'' \<noteq> js ''firstAidSteps''"
    "js ''severity'' \<noteq> js ''recommendation''" "js ''description'' \<noteq> js ''firstAidSteps''"
    "js ''description'' \<noteq> js ''recommendation''" "js ''firstAidSteps'' \<noteq> js ''recommendation''"
    by (simp_all add: js_def)
  have look: "property (schema_fields obj) (js ''woundType'') = Some w"
    "property (schema_fields obj) (js ''severity'') = Some s"
    "property (schema_fields obj) (js ''description'') = Some d"
    "property (schema_fields obj) (js ''firstAidSteps'') = Some st"
    "property (schema_fields obj) (js ''recommendation'') = Some rc"
    unfolding sf using d by (simp_all add: property_def)
  show "k \<in> set schema_keys \<Longrightarrow> property (schema_fields obj) k = property obj k"
    using look p by (auto simp: schema_keys_def)
  show "k \<notin> set schema_keys \<Longrightarrow> property (schema_fields obj) k = None"
    unfolding sf by (simp add: property_def schema_keys_def)
  show "validated_AnalysisResult (schema_fields obj)"
    using assms unfolding validated_AnalysisResult_def look p by simp
qed

section \<open>Facts about the loop\<close>

lemma catch_block_Some: "catch_block e = Some e"
  by (simp add: catch_block_def Let_def)

lemma tryModels_all_fail:
  "\<forall>m \<in> set ms. isl (attempt E (request_for st img ctx m)) \<Longrightarrow>
     tryModels E st img ctx lastError ms =
       (Inl (if ms = [] then lastError
             else Some (projl (attempt E (request_for st img ctx (last ms))))),
        map (request_for st img ctx) ms, st)"
proof (induction ms arbitrary: lastError)
  case Nil
  then show ?case by simp
next
  case (Cons m ms)
  from Cons.prems obtain e where e: "attempt E (request_for st img ctx m) = Inl e"
    by (cases "attempt E (request_for st img ctx m)") auto
  from Cons.prems have rest: "\<forall>m \<in> set ms. isl (attempt E (request_for st img ctx m))" by simp
  show ?case
    using Cons.IH[OF rest, of "Some e"] e by (simp add: catch_block_Some)
qed

lemma tryModels_first_success:
  "\<forall>m \<in> set pre. isl (attempt E (request_for st img ctx m)) \<Longrightarrow>
     attempt E (request_for st img ctx m) = Inr r \<Longrightarrow>
     tryModels E st img ctx lastError (pre @ m # post) =
       (Inr r, map (request_for st img ctx) pre @ [request_for st img ctx m], st)"
proof (induction pre arbitrary: lastError)
  case Nil
  then show ?case by simp
next
  case (Cons p pre)
  from Cons.prems obtain e where e: "attempt E (request_for st img ctx p) = Inl e"
    by (cases "attempt E (request_for st img ctx p)") auto
  from Cons.prems have rest: "\<forall>m \<in> set pre. isl (attempt E (request_for st img ctx m))" by simp
  show ?case
    using Cons.IH[OF rest Cons.prems(2), of "Some e"] e by (simp add: catch_block_Some)
qed

lemma tryModels_state: "snd (snd (tryModels E st img ctx lastError ms)) = st"
proof (induction ms arbitrary: lastError)
  case Nil
  then show ?case by simp
next
  case (Cons m ms)
  show ?case
  proof (cases "attempt E (request_for st img ctx m)")
    case (Inr r)
    then show ?thesis by (simp add: Let_def)
  next
    case (Inl e)
    obtain r reqs st' where t: "tryModels E st img ctx (catch_block e) ms = (r, reqs, st')"
      by (cases "tryModels E st img ctx (catch_block e) ms") auto
    with Cons.IH[of "catch_block e"] have "st' = st" by simp
    with Inl t show ?thesis by (simp add: Let_def)
  qed
qed

lemma tryModels_cases:
  "(\<forall>m \<in> set ms. isl (attempt E (mk m))) \<or>
   (\<exists>pre m post r. ms = pre @ m # post \<and> (\<forall>x \<in> set pre. isl (attempt E (mk x)))
      \<and> attempt E (mk m) = Inr r)"
proof (induction ms)
  case Nil
  then show ?case by simp
next
  case (Cons a ms)
  show ?case
  proof (cases "attempt E (mk a)")
    case (Inr r)
    then have "a # ms = [] @ a # ms \<and> (\<forall>x \<in> set []. isl (attempt E (mk x))) \<and> attempt E (mk a) = Inr r"
      by simp
    then show ?thesis by blast
  next
    case (Inl e)
    from Cons.IH show ?thesis
    proof
      assume "\<forall>m \<in> set ms. isl (attempt E (mk m))"
      with Inl show ?thesis by simp
    next
      assume "\<exists>pre m post r. ms = pre @ m # post \<and> (\<forall>x \<in> set pre. isl (attempt E (mk x))) \<and> attempt E (mk m) = Inr r"
      then obtain pre m post r where h: "ms = pre @ m # post" "\<forall>x \<in> set pre. isl (attempt E (mk x))" "attempt E (mk m) = Inr r"
        by blast
      then have "a # ms = (a # pre) @ m # post \<and> (\<forall>x \<in> set (a # pre). isl (attempt E (mk x))) \<and> attempt E (mk m) = Inr r"
        using Inl by simp
      then show ?thesis by blast
    qed
  qed
qed

lemma sent_analyzeWound:
  "sent (analyzeWound E st img ctx) =
     fst (snd (tryModels E st (imagePart_of img) ctx None (MODELS_TO_TRY st)))"
  by (simp add: analyzeWound_def Let_def split: prod.splits)

lemma settled_analyzeWound:
  "settled (analyzeWound E st img ctx) =
     (case fst (tryModels E st (imagePart_of img) ctx None (MODELS_TO_TRY st)) of
        Inr v \<Rightarrow> Inr v | Inl lastError \<Rightarrow> Inl (exhausted lastError))"
  by (simp add: analyzeWound_def Let_def split: prod.splits)

lemma state_after_analyzeWound: "state_after (analyzeWound E st img ctx) = st"
proof -
  obtain r reqs st' where
    t: "tryModels E st (imagePart_of img) ctx None (MODELS_TO_TRY st) = (r, reqs, st')"
    by (cases "tryModels E st (imagePart_of img) ctx None (MODELS_TO_TRY st)") auto
  with tryModels_state[of E st "imagePart_of img" ctx None "MODELS_TO_TRY st"]
  have "st' = st" by simp
  with t show ?thesis by (simp add: analyzeWound_def Let_def)
qed

lemma model_request_for: "model (request_for st img ctx m) = m"
  by (simp add: request_for_def)

lemma map_model_request_for: "map (model \<circ> request_for st img ctx) ms = ms"
  by (induction ms) (simp_all add: model_request_for)

lemma exhausted_is_Error: "\<exists>msg. exhausted e = Error msg"
  by (simp add: exhausted_def Let_def)

lemma attempt_Inr_iff:
  "attempt E req = Inr r \<longleftrightarrow>
     (\<exists>t obj. generateContent E req = Resolves (Some t) \<and> t \<noteq> []
        \<and> JSON_parse E (cleanJson_of t) = Some obj
        \<and> validated_AnalysisResult obj \<and> r = schema_fields obj)"
proof (cases "generateContent E req")
  case (Rejects s c)
  then show ?thesis by (simp add: attempt_def)
next
  case (Resolves rt)
  show ?thesis
  proof (cases rt)
    case None
    with Resolves show ?thesis by (simp add: attempt_def)
  next
    case (Some t)
    show ?thesis
    proof (cases "JSON_parse E (cleanJson_of t)")
      case None
      with Resolves Some show ?thesis by (simp add: attempt_def)
    next
      case parsed: (Some obj)
      show ?thesis
      proof (cases "zod_parse AnalysisResultSchema obj")
        case (Inl issues)
        then have "\<not> validated_AnalysisResult obj"
          using zod_parse_AnalysisResultSchema_iff[of obj] by auto
        with Resolves Some parsed Inl show ?thesis by (simp add: attempt_def)
      next
        case (Inr v)
        then have "validated_AnalysisResult obj \<and> v = schema_fields obj"
          by (simp add: zod_parse_AnalysisResultSchema_iff)
        with Resolves Some parsed Inr show ?thesis by (auto simp: attempt_def)
      qed
    qed
  qed
qed

lemma candidate_fails_iff: "candidate_fails E req \<longleftrightarrow> isl (attempt E req)"
proof -
  have "\<not> candidate_fails E req \<longleftrightarrow> (\<exists>r. attempt E req = Inr r)"
    unfolding attempt_Inr_iff
    by (auto simp: candidate_fails_def split: response.splits option.splits)
  then show ?thesis by (cases "attempt E req") auto
qed

lemma failure_status_eq:
  "attempt E req = Inl e \<Longrightarrow> statusCode_of (Some e) = failure_status E req"
  by (auto simp: attempt_def failure_status_def statusCode_of_def js_or_def
      split: response.splits option.splits if_splits sum.splits)

lemma analyzeWound_first_success:
  assumes ms: "MODELS_TO_TRY st = pre @ m # post"
    and pre: "\<forall>x \<in> set pre. candidate_fails E (request_for st (imagePart_of img) ctx x)"
    and ok: "attempt E (request_for st (imagePart_of img) ctx m) = Inr r"
  shows "settled (analyzeWound E st img ctx) = Inr r"
    and "sent (analyzeWound E st img ctx) = map (request_for st (imagePart_of img) ctx) (pre @ [m])"
proof -
  from pre have "\<forall>x \<in> set pre. isl (attempt E (request_for st (imagePart_of img) ctx x))"
    by (simp add: candidate_fails_iff)
  from tryModels_first_success[OF this ok, of None post]
  show "settled (analyzeWound E st img ctx) = Inr r"
    and "sent (analyzeWound E st img ctx) = map (request_for st (imagePart_of img) ctx) (pre @ [m])"
    by (simp_all add: settled_analyzeWound sent_analyzeWound ms)
qed

lemma analyzeWound_all_fail:
  assumes "\<forall>m \<in> set (MODELS_TO_TRY st). candidate_fails E (request_for st (imagePart_of img) ctx m)"
  shows "settled (analyzeWound E st img ctx) =
           Inl (exhausted (if MODELS_TO_TRY st = [] then None
                else Some (projl (attempt E (request_for st (imagePart_of img) ctx (last (MODELS_TO_TRY st)))))))"
    and "sent (analyzeWound E st img ctx) = map (request_for st (imagePart_of img) ctx) (MODELS_TO_TRY st)"
proof -
  from assms have "\<forall>m \<in> set (MODELS_TO_TRY st). isl (attempt E (request_for st (imagePart_of img) ctx m))"
    by (simp add: candidate_fails_iff)
  from tryModels_all_fail[OF this, of None]
  show "settled (analyzeWound E st img ctx) =
           Inl (exhausted (if MODELS_TO_TRY st = [] then None
                else Some (projl (attempt E (request_for st (imagePart_of img) ctx (last (MODELS_TO_TRY st)))))))"
    and "sent (analyzeWound E st img ctx) = map (request_for st (imagePart_of img) ctx) (MODELS_TO_TRY st)"
    by (simp_all add: settled_analyzeWound sent_analyzeWound)
qed

lemma analyzeWound_cases:
  obtains (exhausted) "\<forall>m \<in> set (MODELS_TO_TRY st). candidate_fails E (request_for st (imagePart_of img) ctx m)"
  | (success) pre m post r where "MODELS_TO_TRY st = pre @ m # post"
      "\<forall>x \<in> set pre. candidate_fails E (request_for st (imagePart_of img) ctx x)"
      "attempt E (request_for st (imagePart_of img) ctx m) = Inr r"
  using tryModels_cases[of "MODELS_TO_TRY st" E "request_for st (imagePart_of img) ctx"]
  unfolding candidate_fails_iff by blast

lemma messages_distinct: "distinct [rate_limit_message, maintenance_message, all_busy_message]"
  by (simp add: rate_limit_message_def maintenance_message_def all_busy_message_def js_def)

lemma sent_requests_form:
  assumes "req \<in> set (sent (analyzeWound E st img ctx))"
  shows "\<exists>m \<in> set (MODELS_TO_TRY st). req = request_for st (imagePart_of img) ctx m"
proof (cases rule: analyzeWound_cases[of st E img ctx])
  case exhausted
  from analyzeWound_all_fail(2)[OF exhausted] assms show ?thesis by auto
next
  case (success pre m post r)
  from analyzeWound_first_success(2)[OF success] assms success(1) show ?thesis by auto
qed

lemma attempt_first_Inr_iff: "attempt_first E M req = Inr r \<longleftrightarrow> attempt E req = Inr r"
  by (auto simp: attempt_first_def attempt_def split: response.splits option.splits sum.splits)

lemma attempt_first_fails_iff: "isl (attempt_first E M req) \<longleftrightarrow> candidate_fails E req"
proof -
  have "isl (attempt_first E M req) \<longleftrightarrow> isl (attempt E req)"
    by (simp add: attempt_first_def attempt_def split: response.split option.split sum.split)
  then show ?thesis by (simp add: candidate_fails_iff)
qed

lemma failure_message_of_attempt:
  "(case attempt_first E M req of
      Inl e \<Rightarrow> thrown_message e = failure_message E M req
    | Inr r \<Rightarrow> True)"
  by (simp add: attempt_first_def failure_message_def
      split: response.split option.split sum.split)

lemma failure_message_eq:
  "attempt_first E M req = Inl e \<Longrightarrow> thrown_message e = failure_message E M req"
  using failure_message_of_attempt[of E M req] by simp

lemma catch_block_first_Some: "catch_block_first e = Some e"
  by (simp add: catch_block_first_def Let_def)

lemma tryModels_first_all_fail:
  "\<forall>m \<in> set ms. isl (attempt_first E M (request_for_first st img ctx m)) \<Longrightarrow>
     tryModels_first E M st img ctx lastError ms =
       (Inl (if ms = [] then lastError
             else Some (projl (attempt_first E M (request_for_first st img ctx (last ms))))),
        map (request_for_first st img ctx) ms, st)"
proof (induction ms arbitrary: lastError)
  case Nil
  then show ?case by simp
next
  case (Cons m ms)
  from Cons.prems obtain e where e: "attempt_first E M (request_for_first st img ctx m) = Inl e"
    by (cases "attempt_first E M (request_for_first st img ctx m)") auto
  from Cons.prems have rest:
    "\<forall>m \<in> set ms. isl (attempt_first E M (request_for_first st img ctx m))" by simp
  show ?case
    using Cons.IH[OF rest, of "Some e"] e by (simp add: catch_block_first_Some)
qed

lemma analyzeWound_first_all_fail:
  assumes nonempty: "MODELS_TO_TRY st \<noteq> []"
    and fail: "\<forall>m \<in> set (MODELS_TO_TRY st).
      candidate_fails E (request_for_first st (imagePart_of img) ctx m)"
  shows "settled (analyzeWound_first E M st img ctx) =
      Inl (Error (or_else
        (failure_message E M (request_for_first st (imagePart_of img) ctx (last (MODELS_TO_TRY st))))
        busy_message_first))"
proof -
  let ?req = "request_for_first st (imagePart_of img) ctx (last (MODELS_TO_TRY st))"
  from fail have all: "\<forall>m \<in> set (MODELS_TO_TRY st).
      isl (attempt_first E M (request_for_first st (imagePart_of img) ctx m))"
    by (simp add: attempt_first_fails_iff)
  with nonempty have "isl (attempt_first E M ?req)" by simp
  then obtain e where e: "attempt_first E M ?req = Inl e"
    by (cases "attempt_first E M ?req") auto
  have "settled (analyzeWound_first E M st img ctx) = Inl (exhausted_first (Some e))"
    using tryModels_first_all_fail[OF all, of None] nonempty e
    by (simp add: analyzeWound_first_def Let_def)
  then show ?thesis
    using failure_message_eq[OF e] by (simp add: exhausted_first_def)
qed

section \<open>Facts about the example runs\<close>

lemma ecma_JSON_parse_empty: "ecma_JSON_parse (cleanJson_of []) = None"
  by code_simp

lemma models_init:
  "MODELS_TO_TRY module_init =
     js ''gemini-3-flash-preview'' #
       [ js ''gemini-2.5-flash-native-audio-preview-12-2025'', js ''gemini-flash-lite-latest'',
         js ''gemini-3-pro-preview'', js ''gemini-2.5-pro'', js ''gemini-2.5-flash'',
         js ''gemini-2.5-flash-lite'' ]"
  by (simp add: module_init_def)

lemma knee_parses: "ecma_JSON_parse (cleanJson_of knee_text) = Some knee_object"
  by code_simp

lemma knee_valid: "validated_AnalysisResult knee_object"
  by code_simp

lemma knee_fields: "schema_fields knee_object = knee_object"
  by code_simp

lemma missing_steps_parses:
  "ecma_JSON_parse (cleanJson_of missing_steps_text) =
     Some (JObject
       [ (js ''woundType'', JString (js ''Cut'')), (js ''severity'', JString (js ''Low'')),
         (js ''description'', JString (js ''x'')), (js ''recommendation'', JString (js ''y'')) ])"
  by code_simp

lemma missing_steps_invalid:
  "\<not> validated_AnalysisResult (JObject
       [ (js ''woundType'', JString (js ''Cut'')), (js ''severity'', JString (js ''Low'')),
         (js ''description'', JString (js ''x'')), (js ''recommendation'', JString (js ''y'')) ])"
  by code_simp

lemma refusal_unparseable:
  "ecma_JSON_parse (cleanJson_of (js ''Sorry, I cannot help with that.'')) = None"
  by code_simp

lemma env_all_fail_fails:
  "\<forall>m \<in> set (MODELS_TO_TRY module_init).
     candidate_fails env_all_fail (request_for module_init img ctx m)"
proof -
  have 1: "candidate_fails env_all_fail (request_for module_init img ctx (js ''gemini-3-flash-preview''))"
    by (simp add: candidate_fails_def env_all_fail_def replies_def model_request_for
        missing_steps_parses missing_steps_invalid)
  have 7: "candidate_fails env_all_fail (request_for module_init img ctx (js ''gemini-2.5-flash-lite''))"
    by (simp add: candidate_fails_def env_all_fail_def replies_def model_request_for
        refusal_unparseable js_eq_iff)
  have rest: "candidate_fails env_all_fail (request_for module_init img ctx m)"
    if "m \<in> set [ js ''gemini-2.5-flash-native-audio-preview-12-2025'',
         js ''gemini-flash-lite-latest'', js ''gemini-3-pro-preview'', js ''gemini-2.5-pro'',
         js ''gemini-2.5-flash'' ]" for m
    using that
    by (auto simp: candidate_fails_def env_all_fail_def replies_def model_request_for js_eq_iff)
  from 1 7 rest show ?thesis
    unfolding models_init by simp
qed

lemma env_all_fail_last:
  "attempt env_all_fail (request_for module_init img ctx (js ''gemini-2.5-flash-lite'')) = Inl SyntaxError"
  by (simp add: attempt_def env_all_fail_def replies_def model_request_for refusal_unparseable
      js_eq_iff js_Nil_iff)

lemma env_all_fail_settles:
  "settled (analyzeWound env_all_fail module_init img ctx) = Inl (Error all_busy_message)"
proof -
  have "last (MODELS_TO_TRY module_init) = js ''gemini-2.5-flash-lite''"
    by (simp add: models_init)
  with analyzeWound_all_fail(1)[OF env_all_fail_fails[of "imagePart_of img" ctx]]
    env_all_fail_last[of "imagePart_of img" ctx]
  show ?thesis
    by (simp add: models_init exhausted_def statusCode_of_def js_or_def strict_eq_num_def)
qed

lemma env_rate_limited_last_fails:
  "\<forall>m \<in> set (MODELS_TO_TRY module_init).
     candidate_fails env_rate_limited_last (request_for module_init img ctx m)"
  by (simp add: candidate_fails_def env_rate_limited_last_def replies_def model_request_for
      split: option.splits)

lemma blank_step_parses: "ecma_JSON_parse (cleanJson_of blank_step_text) = Some blank_step_object"
  by code_simp

lemma blank_step_valid: "validated_AnalysisResult blank_step_object"
  by code_simp

lemma blank_step_fields: "schema_fields blank_step_object = blank_step_object"
  by code_simp

lemma blank_step_not_as_specified: "\<not> specified_AnalysisResult blank_step_object"
  by code_simp

lemma first_candidate_settles:
  assumes "generateContent E (request_for module_init (imagePart_of img) ctx (js ''gemini-3-flash-preview''))
      = Resolves (Some t)" "t \<noteq> []" "JSON_parse E (cleanJson_of t) = Some obj"
      "validated_AnalysisResult obj"
  shows "settled (analyzeWound E module_init img ctx) = Inr (schema_fields obj)"
    and "sent (analyzeWound E module_init img ctx)
           = [request_for module_init (imagePart_of img) ctx (js ''gemini-3-flash-preview'')]"
proof -
  have ok: "attempt E (request_for module_init (imagePart_of img) ctx (js ''gemini-3-flash-preview''))
      = Inr (schema_fields obj)"
    unfolding attempt_Inr_iff using assms by blast
  have ms: "MODELS_TO_TRY module_init = [] @ js ''gemini-3-flash-preview'' #
       [ js ''gemini-2.5-flash-native-audio-preview-12-2025'', js ''gemini-flash-lite-latest'',
         js ''gemini-3-pro-preview'', js ''gemini-2.5-pro'', js ''gemini-2.5-flash'',
         js ''gemini-2.5-flash-lite'' ]"
    by (simp add: models_init)
  have none: "\<forall>x \<in> set []. candidate_fails E (request_for module_init (imagePart_of img) ctx x)"
    by simp
  from analyzeWound_first_success[OF ms none ok]
  show "settled (analyzeWound E module_init img ctx) = Inr (schema_fields obj)"
    and "sent (analyzeWound E module_init img ctx)
           = [request_for module_init (imagePart_of img) ctx (js ''gemini-3-flash-preview'')]"
    by simp_all
qed

lemma env_blank_step_settles:
  "settled (analyzeWound env_blank_step module_init img ctx) = Inr blank_step_object"
proof -
  have "generateContent env_blank_step
      (request_for module_init (imagePart_of img) ctx (js ''gemini-3-flash-preview''))
      = Resolves (Some blank_step_text)"
    by (simp add: env_blank_step_def replies_def model_request_for)
  moreover have "blank_step_text \<noteq> []"
    by (simp add: blank_step_text_def js_Nil_iff)
  moreover have "JSON_parse env_blank_step (cleanJson_of blank_step_text) = Some blank_step_object"
    by (simp add: env_blank_step_def blank_step_parses)
  ultimately show ?thesis
    using first_candidate_settles(1)[OF _ _ _ blank_step_valid] blank_step_fields by simp
qed

lemma env_knee_settles:
  "settled (analyzeWound env_knee module_init img ctx) = Inr knee_object"
proof -
  have "generateContent env_knee
      (request_for module_init (imagePart_of img) ctx (js ''gemini-3-flash-preview''))
      = Resolves (Some knee_text)"
    by (simp add: env_knee_def replies_def model_request_for)
  moreover have "knee_text \<noteq> []"
    by (simp add: knee_text_def js_Nil_iff)
  moreover have "JSON_parse env_knee (cleanJson_of knee_text) = Some knee_object"
    by (simp add: env_knee_def knee_parses)
  ultimately show ?thesis
    using first_candidate_settles(1)[OF _ _ _ knee_valid] knee_fields by simp
qed

lemma prose_after_span:
  "first_balanced_span (trim (knee_text @ js '' (see {note})'')) = Some knee_text"
  by code_simp

lemma prose_after_clean:
  "cleanJson_of (knee_text @ js '' (see {note})'') = knee_text @ js '' (see {note}''"
  by code_simp

lemma prose_after_unparseable:
  "ecma_JSON_parse (cleanJson_of (knee_text @ js '' (see {note})'')) = None"
  by code_simp

lemma knee_text_nonempty: "knee_text \<noteq> []"
  by (simp add: knee_text_def js_Nil_iff)

lemma env_prose_after_attempt:
  "attempt env_prose_after req = Inl SyntaxError"
  by (simp add: attempt_def env_prose_after_def replies_def prose_after_unparseable
      knee_text_nonempty)

lemma env_prose_after_settles:
  "settled (analyzeWound env_prose_after module_init img ctx) = Inl (Error all_busy_message)"
proof -
  have "\<forall>m \<in> set (MODELS_TO_TRY module_init).
      candidate_fails env_prose_after (request_for module_init (imagePart_of img) ctx m)"
    by (simp add: candidate_fails_iff env_prose_after_attempt)
  from analyzeWound_all_fail(1)[OF this] show ?thesis
    by (simp add: models_init env_prose_after_attempt exhausted_def statusCode_of_def js_or_def
        strict_eq_num_def)
qed

lemma env_pure_attempt: "attempt env_pure req = Inr knee_object"
proof -
  have "generateContent env_pure req = Resolves (Some knee_text)"
    by (simp add: env_pure_def replies_def)
  moreover have "knee_text \<noteq> []"
    by (simp add: knee_text_def js_Nil_iff)
  moreover have "JSON_parse env_pure (cleanJson_of knee_text) = Some knee_object"
    by (simp add: env_pure_def knee_parses)
  ultimately show ?thesis
    unfolding attempt_Inr_iff using knee_valid knee_fields by auto
qed

lemma env_pure_settles:
  "settled (analyzeWound env_pure module_init img ctx) = Inr knee_object"
proof -
  have "generateContent env_pure
      (request_for module_init (imagePart_of img) ctx (js ''gemini-3-flash-preview''))
      = Resolves (Some knee_text)"
    by (simp add: env_pure_def replies_def)
  moreover have "knee_text \<noteq> []"
    by (simp add: knee_text_def js_Nil_iff)
  moreover have "JSON_parse env_pure (cleanJson_of knee_text) = Some knee_object"
    by (simp add: env_pure_def knee_parses)
  ultimately show ?thesis
    using first_candidate_settles(1)[OF _ _ _ knee_valid] knee_fields by simp
qed

lemma knee_text_braces: "knee_text = 0x7B # butlast (tl knee_text) @ [0x7D]"
  by code_simp

lemma env_knee_sent:
  "sent (analyzeWound env_knee module_init img ctx)
     = [request_for module_init (imagePart_of img) ctx (js ''gemini-3-flash-preview'')]"
proof -
  have "generateContent env_knee
      (request_for module_init (imagePart_of img) ctx (js ''gemini-3-flash-preview''))
      = Resolves (Some knee_text)"
    by (simp add: env_knee_def replies_def model_request_for)
  moreover have "JSON_parse env_knee (cleanJson_of knee_text) = Some knee_object"
    by (simp add: env_knee_def knee_parses)
  ultimately show ?thesis
    using first_candidate_settles(2)[OF _ knee_text_nonempty _ knee_valid] by simp
qed

lemma extra_keys_parses:
  "ecma_JSON_parse (cleanJson_of extra_keys_text) = Some (JObject extra_keys_props)"
  by code_simp

lemma extra_keys_valid: "validated_AnalysisResult (JObject extra_keys_props)"
  by code_simp

lemma extra_keys_fields: "schema_fields (JObject extra_keys_props) = extra_keys_result"
  by code_simp

lemma models_init_first:
  "MODELS_TO_TRY module_init_first =
     [ js ''gemini-3-flash-preview'', js ''gemini-2.5-flash-native-audio-preview-12-2025'',
       js ''gemini-flash-lite-latest'', js ''gemini-3-pro-preview'' ]"
  by (simp add: module_init_first_def)

lemma env_quota_fails: "candidate_fails env_quota req"
  by (simp add: candidate_fails_def env_quota_def replies_def)

lemma env_quota_settles:
  "settled (analyzeWound_first env_quota messages_quota module_init_first img ctx)
     = Inl (Error (js ''Quota exceeded.''))"
proof -
  have nonempty: "MODELS_TO_TRY module_init_first \<noteq> []"
    by (simp add: models_init_first)
  have fail: "\<forall>m \<in> set (MODELS_TO_TRY module_init_first).
      candidate_fails env_quota (request_for_first module_init_first (imagePart_of img) ctx m)"
    by (simp add: env_quota_fails)
  have "failure_message env_quota messages_quota req = Some (js ''Quota exceeded.'')" for req
    by (simp add: failure_message_def env_quota_def replies_def messages_quota_def)
  with analyzeWound_first_all_fail[OF nonempty fail, of messages_quota] show ?thesis
    by (simp add: or_else_def js_Nil_iff)
qed

lemma quota_message_differs:
  "js ''Quota exceeded.'' \<noteq> rate_limit_message \<and> js ''Quota exceeded.'' \<noteq> busy_message_first"
  by (simp add: rate_limit_message_def busy_message_first_def js_def)

section \<open>First success wins\<close>

text \<open>
  Claim C1. For every image and context: if the call to the first candidate resolves
  with a text, and the cleaned text parses to an object that meets the constraints of
  the schema, then \<open>analyzeWound\<close> resolves with the five fields of that object,
  unchanged, and the request to the first candidate is the only one sent. (A text that
  parses is not empty: \<open>JSON.parse\<close> throws on the empty text.)
\<close>

theorem C1_first_success_wins:
  assumes first: "MODELS_TO_TRY st = m # ms"
    and responds: "generateContent E (request_for st (imagePart_of img) ctx m) = Resolves (Some resultText)"
    and nonempty: "resultText \<noteq> []"
    and parses: "JSON_parse E (cleanJson_of resultText) = Some obj"
    and valid: "validated_AnalysisResult obj"
  shows "settled (analyzeWound E st img ctx) = Inr (schema_fields obj)
     \<and> sent (analyzeWound E st img ctx) = [request_for st (imagePart_of img) ctx m]
     \<and> own_keys (schema_fields obj) = schema_keys
     \<and> (\<forall>k \<in> set schema_keys. property (schema_fields obj) k = property obj k)"
proof -
  have ok: "attempt E (request_for st (imagePart_of img) ctx m) = Inr (schema_fields obj)"
    unfolding attempt_Inr_iff using responds nonempty parses valid by blast
  have ms: "MODELS_TO_TRY st = [] @ m # ms" using first by simp
  have none: "\<forall>x \<in> set []. candidate_fails E (request_for st (imagePart_of img) ctx x)" by simp
  from analyzeWound_first_success[OF ms none ok] schema_fields_of_valid(1,2)[OF valid]
  show ?thesis by simp
qed

theorem C1_witness:
  "settled (analyzeWound env_knee module_init knee_image (js ''scraped my knee'')) = Inr knee_object
   \<and> sent (analyzeWound env_knee module_init knee_image (js ''scraped my knee''))
       = [request_for module_init (imagePart_of knee_image) (js ''scraped my knee'')
            (js ''gemini-3-flash-preview'')]"
proof -
  have responds: "generateContent env_knee
      (request_for module_init (imagePart_of knee_image) (js ''scraped my knee'')
         (js ''gemini-3-flash-preview'')) = Resolves (Some knee_text)"
    by (simp add: env_knee_def replies_def model_request_for)
  have nonempty: "knee_text \<noteq> []"
    by (simp add: knee_text_def js_def)
  have parses: "JSON_parse env_knee (cleanJson_of knee_text) = Some knee_object"
    by (simp add: env_knee_def knee_parses)
  from C1_first_success_wins[OF models_init responds nonempty parses knee_valid]
  show ?thesis by (simp add: knee_fields)
qed

section \<open>Failures\<close>

text \<open>
  Claim C2. Whatever way a candidate fails (a rejected call with status 429, 404, 503,
  another status or none, a missing or empty text, a text that does not parse, a parsed
  value that the schema rejects), the loop goes on to the next candidate: when all
  candidates before position \<open>i\<close> have failed, the request for candidate \<open>i\<close> is sent.
  An error reaches the caller only when every candidate has been tried and has failed.
\<close>

theorem C2_every_failure_advances:
  "(i < length (MODELS_TO_TRY st)
      \<and> (\<forall>j<i. candidate_fails E (request_for st (imagePart_of img) ctx (MODELS_TO_TRY st ! j)))
    \<longrightarrow> i < length (sent (analyzeWound E st img ctx))
        \<and> sent (analyzeWound E st img ctx) ! i = request_for st (imagePart_of img) ctx (MODELS_TO_TRY st ! i))
   \<and> (settled (analyzeWound E st img ctx) = Inl err
    \<longrightarrow> sent (analyzeWound E st img ctx) = map (request_for st (imagePart_of img) ctx) (MODELS_TO_TRY st)
        \<and> (\<forall>m \<in> set (MODELS_TO_TRY st). candidate_fails E (request_for st (imagePart_of img) ctx m)))"
proof (cases rule: analyzeWound_cases[of st E img ctx])
  case exhausted
  from analyzeWound_all_fail(2)[OF exhausted] exhausted show ?thesis by simp
next
  case (success pre m post r)
  let ?mk = "request_for st (imagePart_of img) ctx"
  have settled: "settled (analyzeWound E st img ctx) = Inr r"
    and sent: "sent (analyzeWound E st img ctx) = map ?mk (pre @ [m])"
    using analyzeWound_first_success[OF success] by simp_all
  have "i \<le> length pre" if i: "\<forall>j<i. candidate_fails E (?mk (MODELS_TO_TRY st ! j))"
  proof (rule ccontr)
    assume "\<not> i \<le> length pre"
    then have "candidate_fails E (?mk (MODELS_TO_TRY st ! length pre))" using i by simp
    then show False using success(1,3) by (simp add: candidate_fails_iff)
  qed
  moreover have "(pre @ [m]) ! i = MODELS_TO_TRY st ! i" if "i \<le> length pre"
    using that success(1) by (simp add: nth_append)
  ultimately show ?thesis using settled sent by (auto simp: nth_append)
qed

theorem C2_witness:
  "sent (analyzeWound env_all_fail module_init knee_image []) ! 6
     = request_for module_init (imagePart_of knee_image) [] (js ''gemini-2.5-flash-lite'')
   \<and> settled (analyzeWound env_all_fail module_init knee_image []) = Inl (Error all_busy_message)
   \<and> length (sent (analyzeWound env_all_fail module_init knee_image [])) = 7"
proof -
  have six: "(6::nat) < length (MODELS_TO_TRY module_init)"
    by (simp add: models_init)
  have earlier: "\<forall>j<6. candidate_fails env_all_fail
      (request_for module_init (imagePart_of knee_image) [] (MODELS_TO_TRY module_init ! j))"
    using env_all_fail_fails[of "imagePart_of knee_image" "[]"] six by simp
  have nth: "MODELS_TO_TRY module_init ! 6 = js ''gemini-2.5-flash-lite''"
    by (simp add: models_init)
  from C2_every_failure_advances[of 6 module_init env_all_fail knee_image "[]" "Error all_busy_message"]
    six earlier env_all_fail_settles[of knee_image "[]"]
  show ?thesis by (simp add: nth models_init)
qed

text \<open>
  Claim C3, as stated: in every run of \<open>analyzeWound\<close> in which all candidates fail, the
  message of the Error is selected by the status code of the last failure, the
  rate-limit message for 429. The first body of \<open>analyzeWound\<close> throws the message of
  the last error itself (line 148): when every call is rejected with status 429 and
  the message \<open>Quota exceeded.\<close>, that message is thrown, which is neither the
  rate-limit message nor the message of line 148.
\<close>

theorem C3_counterexample:
  "settled (analyzeWound_first env_quota messages_quota module_init_first knee_image
       (js ''scraped my knee'')) = Inl (Error (js ''Quota exceeded.''))
   \<and> failure_status env_quota
         (request_for_first module_init_first (imagePart_of knee_image) (js ''scraped my knee'')
            (js ''gemini-3-pro-preview'')) = Number 429
   \<and> js ''Quota exceeded.'' \<noteq> rate_limit_message
   \<and> js ''Quota exceeded.'' \<noteq> busy_message_first"
  using env_quota_settles[of knee_image "js ''scraped my knee''"] quota_message_differs
  by (simp add: failure_status_def env_quota_def replies_def js_or_def)

text \<open>
  Claim C3, amended. When every candidate fails, the call rejects with one Error, and
  its message depends on the last failure alone. In the second body (lines 322-334) it
  is selected by the status code of the last failure: the rate-limit message for 429,
  the maintenance message for 404, and the message that all buddies are busy for any
  other or no status code; the three messages are different texts. In the first body
  (line 148) it is the message of the last failure, or the message that all buddies are
  busy when that failure has no message or an empty one.
\<close>

theorem C3_message_by_last_failure:
  "(MODELS_TO_TRY st \<noteq> []
      \<and> (\<forall>m \<in> set (MODELS_TO_TRY st).
            candidate_fails E (request_for st (imagePart_of img) ctx m))
    \<longrightarrow> settled (analyzeWound E st img ctx) =
        Inl (Error
          (if failure_status E (request_for st (imagePart_of img) ctx (last (MODELS_TO_TRY st)))
                = Number 429
           then rate_limit_message
           else if failure_status E (request_for st (imagePart_of img) ctx (last (MODELS_TO_TRY st)))
                = Number 404
           then maintenance_message
           else all_busy_message)))
   \<and> distinct [rate_limit_message, maintenance_message, all_busy_message]
   \<and> (MODELS_TO_TRY st \<noteq> []
      \<and> (\<forall>m \<in> set (MODELS_TO_TRY st).
            candidate_fails E (request_for_first st (imagePart_of img) ctx m))
    \<longrightarrow> settled (analyzeWound_first E M st img ctx) =
        Inl (Error
          (or_else
             (failure_message E M
                (request_for_first st (imagePart_of img) ctx (last (MODELS_TO_TRY st))))
             busy_message_first)))"
proof -
  have second: "settled (analyzeWound E st img ctx) =
        Inl (Error
          (if failure_status E (request_for st (imagePart_of img) ctx (last (MODELS_TO_TRY st)))
                = Number 429
           then rate_limit_message
           else if failure_status E (request_for st (imagePart_of img) ctx (last (MODELS_TO_TRY st)))
                = Number 404
           then maintenance_message
           else all_busy_message))"
    if nonempty: "MODELS_TO_TRY st \<noteq> []"
      and fail: "\<forall>m \<in> set (MODELS_TO_TRY st).
            candidate_fails E (request_for st (imagePart_of img) ctx m)"
  proof -
    let ?req = "request_for st (imagePart_of img) ctx (last (MODELS_TO_TRY st))"
    from fail nonempty have "candidate_fails E ?req" by simp
    then obtain e where e: "attempt E ?req = Inl e"
      unfolding candidate_fails_iff by (cases "attempt E ?req") auto
    then have status: "statusCode_of (Some e) = failure_status E ?req"
      by (rule failure_status_eq)
    from analyzeWound_all_fail(1)[OF fail] nonempty e
    have "settled (analyzeWound E st img ctx) = Inl (exhausted (Some e))" by simp
    then show ?thesis
      by (simp add: exhausted_def Let_def status strict_eq_num_def)
  qed
  from second analyzeWound_first_all_fail[of st E img ctx M] messages_distinct
  show ?thesis by blast
qed

theorem C3_witness:
  "settled (analyzeWound env_rate_limited_last module_init knee_image (js ''scraped my knee''))
     = Inl (Error rate_limit_message)
   \<and> failure_status env_rate_limited_last
         (request_for module_init (imagePart_of knee_image) (js ''scraped my knee'')
            (js ''gemini-3-flash-preview'')) = Number 404
   \<and> settled (analyzeWound_first env_quota messages_quota module_init_first knee_image
         (js ''scraped my knee'')) = Inl (Error (js ''Quota exceeded.''))"
proof -
  have nonempty: "MODELS_TO_TRY module_init \<noteq> []"
    by (simp add: models_init)
  have last: "last (MODELS_TO_TRY module_init) = js ''gemini-2.5-flash-lite''"
    by (simp add: models_init)
  have status: "failure_status env_rate_limited_last
      (request_for module_init (imagePart_of knee_image) (js ''scraped my knee'')
         (js ''gemini-2.5-flash-lite'')) = Number 429"
    by (simp add: failure_status_def env_rate_limited_last_def replies_def model_request_for
        js_or_def)
  have first: "failure_status env_rate_limited_last
      (request_for module_init (imagePart_of knee_image) (js ''scraped my knee'')
         (js ''gemini-3-flash-preview'')) = Number 404"
    by (simp add: failure_status_def env_rate_limited_last_def replies_def model_request_for
        js_or_def js_eq_iff)
  have nonempty_first: "MODELS_TO_TRY module_init_first \<noteq> []"
    by (simp add: models_init_first)
  have last_first: "last (MODELS_TO_TRY module_init_first) = js ''gemini-3-pro-preview''"
    by (simp add: models_init_first)
  have fail_first: "\<forall>m \<in> set (MODELS_TO_TRY module_init_first).
      candidate_fails env_quota
        (request_for_first module_init_first (imagePart_of knee_image) (js ''scraped my knee'') m)"
    by (simp add: env_quota_fails)
  have message: "failure_message env_quota messages_quota
      (request_for_first module_init_first (imagePart_of knee_image) (js ''scraped my knee'')
         (js ''gemini-3-pro-preview'')) = Some (js ''Quota exceeded.'')"
    by (simp add: failure_message_def env_quota_def replies_def messages_quota_def)
  from C3_message_by_last_failure[where E=env_rate_limited_last and st=module_init
      and img=knee_image and ctx="js ''scraped my knee''"]
    nonempty env_rate_limited_last_fails
  have a: "settled (analyzeWound env_rate_limited_last module_init knee_image
      (js ''scraped my knee'')) = Inl (Error rate_limit_message)"
    unfolding last status by simp
  from C3_message_by_last_failure[where E=env_quota and M=messages_quota
      and st=module_init_first and img=knee_image and ctx="js ''scraped my knee''"]
    nonempty_first fail_first
  have b: "settled (analyzeWound_first env_quota messages_quota module_init_first knee_image
      (js ''scraped my knee'')) = Inl (Error (js ''Quota exceeded.''))"
    unfolding last_first message by (simp add: or_else_def js_Nil_iff)
  from a b first show ?thesis by simp
qed

section \<open>The result\<close>

text \<open>
  Claim C4, as stated: every result that \<open>analyzeWound\<close> returns meets the five
  constraints of the specification, where \<open>firstAidSteps\<close> is a sequence of non-empty
  strings. The schema asks for strings only (\<open>z.array(z.string()).min(1)\<close>), so a
  response whose single step is the empty string is returned.
\<close>

theorem C4_counterexample:
  "settled (analyzeWound env_blank_step module_init knee_image (js ''paper cut''))
     = Inr blank_step_object
   \<and> \<not> specified_AnalysisResult blank_step_object
   \<and> property blank_step_object (js ''firstAidSteps'') = Some (JArray [JString []])"
  using env_blank_step_settles[of knee_image "js ''paper cut''"] blank_step_not_as_specified
  by (simp add: blank_step_object_def property_def js_eq_iff)

text \<open>
  Claim C4, amended. Every result that \<open>analyzeWound\<close> returns has exactly the five
  keys of the schema, with \<open>woundType\<close>, \<open>description\<close> and \<open>recommendation\<close> non-empty
  strings, \<open>severity\<close> one of Low, Medium and High, and \<open>firstAidSteps\<close> an array of at
  least one string (a step may be the empty string). The result is made of the fields
  of the response to the last request sent, and that response meets these constraints:
  a response that breaks one of them is not returned.
\<close>

theorem C4_returned_result_validated:
  assumes "settled (analyzeWound E st img ctx) = Inr r"
  shows "validated_AnalysisResult r \<and> own_keys r = schema_keys
     \<and> sent (analyzeWound E st img ctx) \<noteq> []
     \<and> (\<exists>resultText obj.
           generateContent E (last (sent (analyzeWound E st img ctx))) = Resolves (Some resultText)
           \<and> JSON_parse E (cleanJson_of resultText) = Some obj
           \<and> validated_AnalysisResult obj \<and> r = schema_fields obj)"
proof (cases rule: analyzeWound_cases[of st E img ctx])
  case exhausted
  from analyzeWound_all_fail(1)[OF exhausted] assms show ?thesis by simp
next
  case (success pre m post r')
  from analyzeWound_first_success[OF success] assms
  have r: "r' = r" and sent: "last (sent (analyzeWound E st img ctx)) = request_for st (imagePart_of img) ctx m"
    "sent (analyzeWound E st img ctx) \<noteq> []"
    by simp_all
  from success(3)[unfolded attempt_Inr_iff r] obtain t obj where
    o: "generateContent E (request_for st (imagePart_of img) ctx m) = Resolves (Some t)"
       "JSON_parse E (cleanJson_of t) = Some obj" "validated_AnalysisResult obj" "r = schema_fields obj"
    by blast
  with schema_fields_of_valid(1,4)[OF o(3)] sent show ?thesis by auto
qed

theorem C4_witness:
  "settled (analyzeWound env_knee module_init knee_image (js ''scraped my knee'')) = Inr knee_object
   \<and> validated_AnalysisResult knee_object \<and> own_keys knee_object = schema_keys"
  using C4_returned_result_validated[OF env_knee_settles[of knee_image "js ''scraped my knee''"]]
    env_knee_settles[of knee_image "js ''scraped my knee''"]
  by simp

text \<open>
  Claim C10. When the response of a candidate parses to an object that has the five
  fields in valid form and any other keys besides, and the candidates before it have
  failed, \<open>analyzeWound\<close> resolves with an object that has exactly the five keys of
  the schema, with the values of the response; no other key of the response is in it.
\<close>

theorem C10_unknown_keys_dropped:
  assumes ms: "MODELS_TO_TRY st = pre @ m # post"
    and pre: "\<forall>x \<in> set pre. candidate_fails E (request_for st (imagePart_of img) ctx x)"
    and responds: "generateContent E (request_for st (imagePart_of img) ctx m) = Resolves (Some resultText)"
    and nonempty: "resultText \<noteq> []"
    and parses: "JSON_parse E (cleanJson_of resultText) = Some (JObject props)"
    and valid: "validated_AnalysisResult (JObject props)"
  shows "settled (analyzeWound E st img ctx) = Inr (schema_fields (JObject props))
     \<and> own_keys (schema_fields (JObject props)) = schema_keys
     \<and> (\<forall>k \<in> set schema_keys. property (schema_fields (JObject props)) k = map_of props k)
     \<and> (\<forall>k. k \<notin> set schema_keys \<longrightarrow> property (schema_fields (JObject props)) k = None)"
proof -
  have ok: "attempt E (request_for st (imagePart_of img) ctx m) = Inr (schema_fields (JObject props))"
    unfolding attempt_Inr_iff using responds nonempty parses valid by blast
  from analyzeWound_first_success(1)[OF ms pre ok] schema_fields_of_valid(1,2,3)[OF valid]
  show ?thesis by (simp add: property_def)
qed

theorem C10_witness:
  "settled (analyzeWound env_extra_keys module_init knee_image (js ''cut my hand''))
     = Inr extra_keys_result
   \<and> own_keys extra_keys_result = schema_keys
   \<and> property extra_keys_result (js ''confidence'') = None
   \<and> property extra_keys_result (js ''notes'') = None
   \<and> map_of extra_keys_props (js ''confidence'') = Some (JNumber (js ''0.9''))"
proof -
  let ?mk = "request_for module_init (imagePart_of knee_image) (js ''cut my hand'')"
  have ms: "MODELS_TO_TRY module_init =
      [js ''gemini-3-flash-preview''] @ js ''gemini-2.5-flash-native-audio-preview-12-2025'' #
        [ js ''gemini-flash-lite-latest'', js ''gemini-3-pro-preview'', js ''gemini-2.5-pro'',
          js ''gemini-2.5-flash'', js ''gemini-2.5-flash-lite'' ]"
    by (simp add: models_init)
  have pre: "\<forall>x \<in> set [js ''gemini-3-flash-preview'']. candidate_fails env_extra_keys (?mk x)"
    by (simp add: candidate_fails_def env_extra_keys_def replies_def model_request_for)
  have responds: "generateContent env_extra_keys
      (?mk (js ''gemini-2.5-flash-native-audio-preview-12-2025'')) = Resolves (Some extra_keys_text)"
    by (simp add: env_extra_keys_def replies_def model_request_for js_eq_iff)
  have nonempty: "extra_keys_text \<noteq> []"
    by (simp add: extra_keys_text_def js_Nil_iff)
  have parses: "JSON_parse env_extra_keys (cleanJson_of extra_keys_text) = Some (JObject extra_keys_props)"
    by (simp add: env_extra_keys_def extra_keys_parses)
  have unknown: "js ''confidence'' \<notin> set schema_keys" "js ''notes'' \<notin> set schema_keys"
    by (simp_all add: schema_keys_def js_eq_iff)
  have conf: "map_of extra_keys_props (js ''confidence'') = Some (JNumber (js ''0.9''))"
    by (simp add: extra_keys_props_def)
  from C10_unknown_keys_dropped[OF ms pre responds nonempty parses extra_keys_valid] unknown conf
  show ?thesis
    by (simp add: extra_keys_fields)
qed

section \<open>Extraction\<close>

text \<open>
  Claim C5, as stated: for a response text that is one JSON object wrapped in prose or
  fencing, the extraction selects the first balanced span and the result is the one of
  the pure object. The pattern takes the text from the first \<open>{\<close> to the last \<open>}\<close>:
  with prose after the object that has braces of its own, the first balanced span is
  the object, the extracted text is longer and does not parse, and the candidate fails
  where the pure object succeeds.
\<close>

theorem C5_counterexample:
  "first_balanced_span (trim (knee_text @ js '' (see {note})'')) = Some knee_text
   \<and> cleanJson_of (knee_text @ js '' (see {note})'') = knee_text @ js '' (see {note}''
   \<and> cleanJson_of (knee_text @ js '' (see {note})'') \<noteq> knee_text
   \<and> settled (analyzeWound env_prose_after module_init knee_image (js ''scraped my knee''))
       = Inl (Error all_busy_message)
   \<and> settled (analyzeWound env_pure module_init knee_image (js ''scraped my knee''))
       = Inr knee_object"
  using prose_after_span prose_after_clean
    env_prose_after_settles[of knee_image "js ''scraped my knee''"]
    env_pure_settles[of knee_image "js ''scraped my knee''"]
  by (simp add: js_Nil_iff)

text \<open>
  Claim C5, amended. For a response text that is a JSON object text (from its \<open>{\<close> to
  its \<open>}\<close>) wrapped in a prefix without \<open>{\<close> and a suffix without \<open>}\<close>, such as a
  markdown fence, the extraction selects the text from the first \<open>{\<close> to the last \<open>}\<close>,
  which is the object text, and the candidate has the same outcome as with the pure
  object text as response.
\<close>

theorem C5_wrapping_without_braces_round_trips:
  assumes pre: "0x7B \<notin> set pre" and post: "0x7D \<notin> set post"
    and wrapped: "generateContent E req = Resolves (Some (pre @ (0x7B # body @ [0x7D]) @ post))"
    and pure: "generateContent E' req' = Resolves (Some (0x7B # body @ [0x7D]))"
    and same_parser: "JSON_parse E' = JSON_parse E"
  shows "cleanJson_of (pre @ (0x7B # body @ [0x7D]) @ post) = 0x7B # body @ [0x7D]
     \<and> cleanJson_of (0x7B # body @ [0x7D]) = 0x7B # body @ [0x7D]
     \<and> attempt E req = attempt E' req'"
proof -
  have w: "cleanJson_of (pre @ (0x7B # body @ [0x7D]) @ post) = 0x7B # body @ [0x7D]"
    using pre post by (rule cleanJson_of_wrapped)
  have "cleanJson_of ([] @ (0x7B # body @ [0x7D]) @ []) = 0x7B # body @ [0x7D]"
    by (rule cleanJson_of_wrapped) simp_all
  then have p: "cleanJson_of (0x7B # body @ [0x7D]) = 0x7B # body @ [0x7D]" by simp
  have "attempt E req = attempt E' req'"
    unfolding attempt_def wrapped pure using w p same_parser by simp
  with w p show ?thesis by simp
qed

theorem C5_witness:
  "cleanJson_of (js ''Here is the report: ```json'' @ [0x0A] @ knee_text @ [0x0A] @ js ''```'')
     = knee_text
   \<and> attempt env_fenced (request_for module_init (imagePart_of knee_image) [] (js ''gemini-3-flash-preview''))
     = attempt env_pure (request_for module_init (imagePart_of knee_image) [] (js ''gemini-3-flash-preview''))
   \<and> attempt env_pure (request_for module_init (imagePart_of knee_image) [] (js ''gemini-3-flash-preview''))
     = Inr knee_object"
proof -
  let ?pre = "js ''Here is the report: ```json'' @ [0x0A]"
  let ?post = "[0x0A] @ js ''```''"
  let ?body = "butlast (tl knee_text)"
  let ?req = "request_for module_init (imagePart_of knee_image) [] (js ''gemini-3-flash-preview'')"
  have pre: "0x7B \<notin> set ?pre" by (simp add: js_def)
  have post: "0x7D \<notin> set ?post" by (simp add: js_def)
  have wrapped: "generateContent env_fenced ?req = Resolves (Some (?pre @ (0x7B # ?body @ [0x7D]) @ ?post))"
    using knee_text_braces by (simp add: env_fenced_def replies_def)
  have pure: "generateContent env_pure ?req = Resolves (Some (0x7B # ?body @ [0x7D]))"
    using knee_text_braces by (simp add: env_pure_def replies_def)
  have same: "JSON_parse env_pure = JSON_parse env_fenced"
    by (simp add: env_pure_def env_fenced_def)
  from C5_wrapping_without_braces_round_trips[OF pre post wrapped pure same]
  show ?thesis
    using knee_text_braces env_pure_attempt[of ?req] by simp
qed

section \<open>The request\<close>

text \<open>
  Claim C6, as stated: every context, the empty one too, is substituted into the prompt
  verbatim. The template substitutes \<open>context || "None provided."\<close>: for the empty
  context the prompt has the text \<open>None provided.\<close> at that place.
\<close>

theorem C6_counterexample:
  "map promptPart (sent (analyzeWound env_knee module_init knee_image []))
     = [prompt_intro @ MEDICAL_PDF_KNOWLEDGE module_init @ prompt_context_label
          @ js ''None provided.'' @ prompt_instructions]
   \<and> map promptPart (sent (analyzeWound env_knee module_init knee_image []))
     \<noteq> [prompt_intro @ MEDICAL_PDF_KNOWLEDGE module_init @ prompt_context_label
          @ [] @ prompt_instructions]"
  by (simp add: env_knee_sent request_for_def promptText_def context_or_default_def or_else_def
      js_Nil_iff)

text \<open>
  Claim C6, amended. Every non-empty context is substituted into the prompt verbatim,
  whatever its length and content; for the empty context the text \<open>None provided.\<close> is
  substituted. Every request of a call carries this prompt.
\<close>

theorem C6_context_in_prompt:
  "(ctx \<noteq> [] \<longrightarrow>
      promptText kb ctx = prompt_intro @ kb @ prompt_context_label @ ctx @ prompt_instructions)
   \<and> promptText kb [] =
       prompt_intro @ kb @ prompt_context_label @ js ''None provided.'' @ prompt_instructions
   \<and> (\<forall>req \<in> set (sent (analyzeWound E st img ctx)).
         promptPart req = promptText (MEDICAL_PDF_KNOWLEDGE st) ctx)"
proof -
  have "promptPart req = promptText (MEDICAL_PDF_KNOWLEDGE st) ctx"
    if "req \<in> set (sent (analyzeWound E st img ctx))" for req
    using sent_requests_form[OF that] by (auto simp: request_for_def)
  then show ?thesis
    by (simp add: promptText_def context_or_default_def or_else_def)
qed

theorem C6_witness:
  "map promptPart (sent (analyzeWound env_knee module_init knee_image (js ''scraped my knee'')))
     = [prompt_intro @ MEDICAL_PDF_KNOWLEDGE_text @ prompt_context_label
          @ js ''scraped my knee'' @ prompt_instructions]"
proof -
  have nonempty: "js ''scraped my knee'' \<noteq> []"
    by (simp add: js_Nil_iff)
  have kb: "MEDICAL_PDF_KNOWLEDGE module_init = MEDICAL_PDF_KNOWLEDGE_text"
    by (simp add: module_init_def)
  from C6_context_in_prompt[of "js ''scraped my knee''" MEDICAL_PDF_KNOWLEDGE_text env_knee
      module_init knee_image] nonempty
  have verbatim: "promptText MEDICAL_PDF_KNOWLEDGE_text (js ''scraped my knee'')
      = prompt_intro @ MEDICAL_PDF_KNOWLEDGE_text @ prompt_context_label
          @ js ''scraped my knee'' @ prompt_instructions"
    and each: "\<forall>req \<in> set (sent (analyzeWound env_knee module_init knee_image
          (js ''scraped my knee''))). promptPart req
        = promptText (MEDICAL_PDF_KNOWLEDGE module_init) (js ''scraped my knee'')"
    by blast+
  from each show ?thesis
    unfolding env_knee_sent kb verbatim by simp
qed

text \<open>
  Claim C7, as stated: for every image string, with the prefix
  \<open>data:<mediaType>;base64,<payload>\<close> the payload is the part after the comma and the
  media type the declared one, and without the prefix the payload is the whole string
  and the media type \<open>image/jpeg\<close>. The code takes the piece between the first and the
  second comma, and the whole string when that piece is missing or empty: a string
  without the prefix that has a comma loses what is before the comma, and with the
  prefix and an empty payload the whole string, prefix included, is the payload.
\<close>

theorem C7_counterexample:
  "imagePart_of (js ''iVBORw0KGgo,AAAA'')
     = \<lparr> data = js ''AAAA'', mimeType = js ''image/jpeg'' \<rparr>
   \<and> data (imagePart_of (js ''iVBORw0KGgo,AAAA'')) \<noteq> js ''iVBORw0KGgo,AAAA''
   \<and> imagePart_of (js ''data:image/png;base64,'')
     = \<lparr> data = js ''data:image/png;base64,'', mimeType = js ''image/png'' \<rparr>
   \<and> data (imagePart_of (js ''data:image/png;base64,'')) \<noteq> []"
  by code_simp

text \<open>
  Claim C7, amended. For an image string \<open>data:<mediaType>;base64,<payload>\<close> whose
  media type is not empty and has no colon, semicolon or comma, and whose payload is
  not empty and has no comma, the payload is the part after the comma and the media
  type is the declared one. For an image string without a comma and without a colon,
  the whole string is the payload and the media type is \<open>image/jpeg\<close>. Every request
  of a call carries the image part so derived.
\<close>

theorem C7_image_part:
  "(mt \<noteq> [] \<and> 0x3A \<notin> set mt \<and> 0x3B \<notin> set mt \<and> 0x2C \<notin> set mt
      \<and> payload \<noteq> [] \<and> 0x2C \<notin> set payload
    \<longrightarrow> imagePart_of (js ''data:'' @ mt @ js '';base64,'' @ payload)
          = \<lparr> data = payload, mimeType = mt \<rparr>)
   \<and> (0x2C \<notin> set img \<and> 0x3A \<notin> set img
    \<longrightarrow> imagePart_of img = \<lparr> data = img, mimeType = js ''image/jpeg'' \<rparr>)
   \<and> (\<forall>req \<in> set (sent (analyzeWound E st img ctx)). imagePart req = imagePart_of img)"
proof -
  have "imagePart req = imagePart_of img" if "req \<in> set (sent (analyzeWound E st img ctx))" for req
    using sent_requests_form[OF that] by (auto simp: request_for_def)
  then show ?thesis
    by (auto simp: imagePart_of_def data_with_prefix mime_with_prefix data_without_comma
        mime_without_colon)
qed

theorem C7_witness:
  "imagePart_of (js ''data:image/png;base64,iVBORw0KGgo='')
     = \<lparr> data = js ''iVBORw0KGgo='', mimeType = js ''image/png'' \<rparr>
   \<and> imagePart_of (js ''iVBORw0KGgo='')
     = \<lparr> data = js ''iVBORw0KGgo='', mimeType = js ''image/jpeg'' \<rparr>
   \<and> map imagePart (sent (analyzeWound env_knee module_init (js ''iVBORw0KGgo='') []))
     = [\<lparr> data = js ''iVBORw0KGgo='', mimeType = js ''image/jpeg'' \<rparr>]"
proof -
  have mt: "js ''image/png'' \<noteq> [] \<and> 0x3A \<notin> set (js ''image/png'')
      \<and> 0x3B \<notin> set (js ''image/png'') \<and> 0x2C \<notin> set (js ''image/png'')"
    by (simp add: js_def)
  have payload: "js ''iVBORw0KGgo='' \<noteq> [] \<and> 0x2C \<notin> set (js ''iVBORw0KGgo='')
      \<and> 0x3A \<notin> set (js ''iVBORw0KGgo='')"
    by (simp add: js_def)
  have whole: "js ''data:'' @ js ''image/png'' @ js '';base64,'' @ js ''iVBORw0KGgo=''
      = js ''data:image/png;base64,iVBORw0KGgo=''"
    by (simp add: js_def)
  from C7_image_part[of "js ''image/png''" "js ''iVBORw0KGgo=''" "js ''iVBORw0KGgo=''"
      env_knee module_init "[]"] mt payload
  show ?thesis
    by (simp add: whole env_knee_sent request_for_def)
qed

section \<open>Termination and frame\<close>

text \<open>
  Claim C8. Every call of \<open>analyzeWound\<close> settles, with a result or with an Error,
  after at most one request per entry of the candidate list: the models of the requests
  sent are an initial part of the list, in the order of the list, so there are at most
  as many requests as candidates (seven for the list of the module).
\<close>

theorem C8_bounded_trials_in_priority_order:
  "length (sent (analyzeWound E st img ctx)) \<le> length (MODELS_TO_TRY st)
   \<and> map model (sent (analyzeWound E st img ctx))
       = take (length (sent (analyzeWound E st img ctx))) (MODELS_TO_TRY st)
   \<and> ((\<exists>r. settled (analyzeWound E st img ctx) = Inr r)
        \<or> (\<exists>msg. settled (analyzeWound E st img ctx) = Inl (Error msg)))
   \<and> length (sent (analyzeWound E module_init img ctx)) \<le> 7"
proof -
  have general: "length (sent (analyzeWound E s img ctx)) \<le> length (MODELS_TO_TRY s)
     \<and> map model (sent (analyzeWound E s img ctx))
         = take (length (sent (analyzeWound E s img ctx))) (MODELS_TO_TRY s)" for s
  proof -
    let ?mk = "request_for s (imagePart_of img) ctx"
    let ?ms = "MODELS_TO_TRY s"
    from tryModels_cases[of ?ms E ?mk] show ?thesis
    proof
      assume "\<forall>m \<in> set ?ms. isl (attempt E (?mk m))"
      then have "fst (snd (tryModels E s (imagePart_of img) ctx None ?ms)) = map ?mk ?ms"
        by (simp add: tryModels_all_fail)
      then show ?thesis
        by (simp add: sent_analyzeWound map_model_request_for)
    next
      assume "\<exists>pre m post r. ?ms = pre @ m # post
                \<and> (\<forall>x \<in> set pre. isl (attempt E (?mk x))) \<and> attempt E (?mk m) = Inr r"
      then obtain pre m post r where ms: "?ms = pre @ m # post"
        and pre: "\<forall>x \<in> set pre. isl (attempt E (?mk x))" and ok: "attempt E (?mk m) = Inr r"
        by blast
      have "fst (snd (tryModels E s (imagePart_of img) ctx None (pre @ m # post))) = map ?mk (pre @ [m])"
        using tryModels_first_success[OF pre ok] by simp
      then have "sent (analyzeWound E s img ctx) = map ?mk (pre @ [m])"
        by (simp add: sent_analyzeWound ms)
      then show ?thesis
        by (simp add: map_model_request_for model_request_for ms)
    qed
  qed
  have settles: "(\<exists>r. settled (analyzeWound E st img ctx) = Inr r)
        \<or> (\<exists>msg. settled (analyzeWound E st img ctx) = Inl (Error msg))"
    using exhausted_is_Error by (auto simp: settled_analyzeWound split: sum.splits)
  have "length (MODELS_TO_TRY module_init) = 7"
    by (simp add: module_init_def)
  with general[of module_init] have "length (sent (analyzeWound E module_init img ctx)) \<le> 7"
    by simp
  with general[of st] settles show ?thesis by blast
qed

text \<open>
  Claim C9. A call of \<open>analyzeWound\<close> leaves the candidate list and the knowledge-base
  text as they were, and nothing of a call reaches the next one: \<open>lastError\<close> starts
  as \<open>null\<close> in every call, so a call made after another one behaves as if it were
  the first.
\<close>

theorem C9_module_state_unchanged:
  "state_after (analyzeWound E st img ctx) = st
   \<and> MODELS_TO_TRY (state_after (analyzeWound E st img ctx)) = MODELS_TO_TRY st
   \<and> MEDICAL_PDF_KNOWLEDGE (state_after (analyzeWound E st img ctx)) = MEDICAL_PDF_KNOWLEDGE st
   \<and> analyzeWound E' (state_after (analyzeWound E st img ctx)) img' ctx'
       = analyzeWound E' st img' ctx'"
  by (simp add: state_after_analyzeWound)

end
